theory Spec2Isabelle
  imports Main "HOL-Library.Word" "HOL-Library.AList"
begin

unbundle bit_operations_syntax

section \<open>Basic data\<close>

text \<open>
  Go byte slices are lists of 8-bit words; Go strings are byte sequences and are
  modelled as \<open>string\<close> (a list of 8-bit characters).
\<close>

type_synonym byte = "8 word"
type_synonym bytes = "byte list"

text \<open>
  A Go call either panics (a run-time panic such as an index out of range), returns a
  non-nil error, or returns a value. \<open>Errorf msg\<close> is an error made by \<open>fmt.Errorf\<close>
  from a message alone, \<open>Wrapf msg e\<close> one that wraps \<open>e\<close> with \<open>%w\<close>; \<open>ErrIO\<close> stands
  for any failure of the operating system or the network that the model does not derive
  from its own state.
\<close>

datatype panic = IndexOutOfRange | NilDereference

datatype error =
    ErrInvalidCacheEntityKey
  | ErrHexInvalidByte
  | ErrHexLength
  | EOF
  | ErrUnexpectedEOF
  | ErrNoProgress
  | ErrClosedPipe
  | ErrNotExist
  | ErrIO
  | Errorf string
  | Wrapf string error

datatype 'a result = Panic panic | Err error | Ok 'a

section \<open>Object keys (internal/cache/backends/blob/key.go)\<close>

text \<open>The verb \<open>%02x\<close> of \<open>fmt.Sprintf\<close> on a byte, and \<open>%x\<close> on a byte slice.\<close>

definition hex_digit :: "nat \<Rightarrow> char" where
  "hex_digit n = ''0123456789abcdef'' ! n"

definition hex_byte :: "byte \<Rightarrow> string" where
  "hex_byte b = [hex_digit (unat b div 16), hex_digit (unat b mod 16)]"

definition hex_bytes :: "bytes \<Rightarrow> string" where
  "hex_bytes bs = concat (map hex_byte bs)"

text \<open>
  \<open>CacheEntityKey\<close> is \<open>fmt.Sprintf("b/%02x/%x", actionID[0], actionID)\<close>: the argument
  \<open>actionID[0]\<close> is evaluated before the call, so an empty slice panics.
\<close>

definition CacheEntityKey :: "bytes \<Rightarrow> string result" where
  "CacheEntityKey actionID =
     (case actionID of
        [] \<Rightarrow> Panic IndexOutOfRange
      | b # _ \<Rightarrow> Ok (''b/'' @ hex_byte b @ ''/'' @ hex_bytes actionID))"

text \<open>
  \<open>encoding/hex\<close>: \<open>fromHexChar\<close> accepts both cases of the letters; \<open>DecodeString\<close>
  decodes pairs from the left, reports the first invalid byte, and reports a length
  error for a trailing single valid digit.
\<close>

definition fromHexChar :: "char \<Rightarrow> nat option" where
  "fromHexChar c =
     (let n = of_char c :: nat in
      if of_char CHR ''0'' \<le> n \<and> n \<le> of_char CHR ''9'' then Some (n - of_char CHR ''0'')
      else if of_char CHR ''a'' \<le> n \<and> n \<le> of_char CHR ''f'' then Some (n - of_char CHR ''a'' + 10)
      else if of_char CHR ''A'' \<le> n \<and> n \<le> of_char CHR ''F'' then Some (n - of_char CHR ''A'' + 10)
      else None)"

fun hex_DecodeString :: "string \<Rightarrow> error + bytes" where
  "hex_DecodeString [] = Inr []"
| "hex_DecodeString [p] =
     (case fromHexChar p of None \<Rightarrow> Inl ErrHexInvalidByte | Some _ \<Rightarrow> Inl ErrHexLength)"
| "hex_DecodeString (p # q # rest) =
     (case fromHexChar p of
        None \<Rightarrow> Inl ErrHexInvalidByte
      | Some a \<Rightarrow>
          (case fromHexChar q of
             None \<Rightarrow> Inl ErrHexInvalidByte
           | Some b \<Rightarrow>
               (case hex_DecodeString rest of
                  Inl e \<Rightarrow> Inl e
                | Inr bs \<Rightarrow> Inr (word_of_nat (16 * a + b) # bs))))"

definition DecodeCacheEntityKey :: "string \<Rightarrow> bytes result" where
  "DecodeCacheEntityKey key =
     (if length key < 5 \<or> key ! 0 \<noteq> CHR ''b'' \<or> key ! 1 \<noteq> CHR ''/'' \<or> key ! 4 \<noteq> CHR ''/''
      then Err ErrInvalidCacheEntityKey
      else
        (case hex_DecodeString (drop 5 key) of
           Inl _ \<Rightarrow> Err ErrInvalidCacheEntityKey
         | Inr actionIdInBytes \<Rightarrow>
             (case CacheEntityKey actionIdInBytes of
                Panic p \<Rightarrow> Panic p
              | Err e \<Rightarrow> Err e
              | Ok k \<Rightarrow>
                  if k \<noteq> key then Err ErrInvalidCacheEntityKey
                  else Ok actionIdInBytes)))"

definition CacheEntityNameInArchive :: "bytes \<Rightarrow> string" where
  "CacheEntityNameInArchive actionID = hex_bytes actionID"

definition ArchiveListPrefixKey :: "string \<Rightarrow> string" where
  "ArchiveListPrefixKey keyspace = ''b/'' @ keyspace"

definition ArchiveKey :: "string \<Rightarrow> string" where
  "ArchiveKey keyspace = ''blobar/'' @ keyspace @ ''.zip''"

definition ArchiveFilePath :: "string \<Rightarrow> string \<Rightarrow> string" where
  "ArchiveFilePath workDir keyspace = workDir @ ''/blobar/'' @ keyspace @ ''.zip''"

text \<open>\<open>CacheEntityKeyspace\<close> is \<open>fmt.Sprintf("%02x", actionID[0])[0:1]\<close>.\<close>

definition CacheEntityKeyspace :: "bytes \<Rightarrow> string result" where
  "CacheEntityKeyspace actionID =
     (case actionID of
        [] \<Rightarrow> Panic IndexOutOfRange
      | b # _ \<Rightarrow> Ok (take 1 (hex_byte b)))"

section \<open>EntryMeta codec (internal/cache/entrymeta.go)\<close>

text \<open>
  A \<open>time.Time\<close> is modelled by the instant it denotes, as the number of nanoseconds
  since the Unix epoch (an unbounded integer); the monotonic reading and the location,
  which \<open>Time.Equal\<close> ignores, are left out. The zero value \<open>time.Time{}\<close> is
  January 1 of year 1, 00:00:00 UTC, that is 62135596800 seconds before the epoch.
  \<open>Time.UnixNano\<close> computes \<open>unixSec * 1e9 + nsec\<close> in \<open>int64\<close>, so it is the instant
  reduced to 64 bits; \<open>time.Unix(0, n)\<close> is the instant \<open>n\<close>.
\<close>

type_synonym go_time = int

definition zero_time :: go_time where
  "zero_time = - 62135596800000000000"

definition UnixNano :: "go_time \<Rightarrow> 64 word" where
  "UnixNano t = word_of_int t"

definition time_Unix0 :: "64 word \<Rightarrow> go_time" where
  "time_Unix0 nsec = sint nsec"

record EntryMeta =
  ActionID :: bytes
  OutputID :: bytes
  Size :: "64 word"
  Time :: go_time

text \<open>\<open>binary.LittleEndian\<close>: \<open>PutUint32\<close>, \<open>PutUint64\<close>, \<open>Uint32\<close>, \<open>Uint64\<close>.\<close>

definition PutUint32 :: "32 word \<Rightarrow> bytes" where
  "PutUint32 v = [ucast v, ucast (drop_bit 8 v), ucast (drop_bit 16 v), ucast (drop_bit 24 v)]"

definition Uint32 :: "bytes \<Rightarrow> 32 word" where
  "Uint32 b = ucast (b ! 0) OR push_bit 8 (ucast (b ! 1)) OR push_bit 16 (ucast (b ! 2))
     OR push_bit 24 (ucast (b ! 3))"

definition PutUint64 :: "64 word \<Rightarrow> bytes" where
  "PutUint64 v =
     [ucast v, ucast (drop_bit 8 v), ucast (drop_bit 16 v), ucast (drop_bit 24 v),
      ucast (drop_bit 32 v), ucast (drop_bit 40 v), ucast (drop_bit 48 v), ucast (drop_bit 56 v)]"

definition Uint64 :: "bytes \<Rightarrow> 64 word" where
  "Uint64 b = ucast (b ! 0) OR push_bit 8 (ucast (b ! 1)) OR push_bit 16 (ucast (b ! 2))
     OR push_bit 24 (ucast (b ! 3)) OR push_bit 32 (ucast (b ! 4)) OR push_bit 40 (ucast (b ! 5))
     OR push_bit 48 (ucast (b ! 6)) OR push_bit 56 (ucast (b ! 7))"

definition SerializedSize :: "EntryMeta \<Rightarrow> nat" where
  "SerializedSize em = 4 + 4 + length (ActionID em) + length (OutputID em) + 8 + 8"

text \<open>
  \<open>WriteTo\<close> fills a buffer of \<open>SerializedSize\<close> bytes and hands it to the writer in one
  \<open>Write\<close> call; \<open>WriteTo_buf\<close> is that buffer. The two lengths are converted with
  \<open>uint32(len(...))\<close>, which keeps the low 32 bits.
\<close>

definition WriteTo_buf :: "EntryMeta \<Rightarrow> bytes" where
  "WriteTo_buf em =
     PutUint32 (word_of_nat (length (ActionID em))) @
     PutUint32 (word_of_nat (length (OutputID em))) @
     ActionID em @ OutputID em @
     PutUint64 (Size em) @
     PutUint64 (UnixNano (Time em))"

text \<open>
  An \<open>io.Reader\<close> is the bytes it still yields and the error it returns once they are
  used up (\<open>None\<close> for \<open>io.EOF\<close>). \<open>io.ReadFull\<close> reads exactly \<open>n\<close> bytes, or fails:
  with \<open>io.EOF\<close> when nothing could be read, with \<open>io.ErrUnexpectedEOF\<close> after a partial
  read, or with the reader's own error.
\<close>

type_synonym reader = "bytes \<times> error option"

definition ReadFull :: "nat \<Rightarrow> reader \<Rightarrow> (error + bytes) \<times> reader" where
  "ReadFull n r =
     (case r of (data, fail) \<Rightarrow>
        if n \<le> length data then (Inr (take n data), (drop n data, fail))
        else
          (Inl (case fail of
                  Some e \<Rightarrow> e
                | None \<Rightarrow> if data = [] then EOF else ErrUnexpectedEOF),
           ([], fail)))"

definition ReadEntryMeta :: "reader \<Rightarrow> (error + EntryMeta) \<times> reader" where
  "ReadEntryMeta r =
     (case ReadFull 8 r of
        (Inl e, r1) \<Rightarrow> (Inl e, r1)
      | (Inr lengthHeader, r1) \<Rightarrow>
          (let actionIDLen = unat (Uint32 (take 4 lengthHeader));
               outputIDLen = unat (Uint32 (take 4 (drop 4 lengthHeader)))
           in case ReadFull (actionIDLen + outputIDLen + 16) r1 of
                (Inl e, r2) \<Rightarrow> (Inl e, r2)
              | (Inr remainingBuf, r2) \<Rightarrow>
                  (let timeNano = Uint64 (take 8 (drop (actionIDLen + outputIDLen + 8) remainingBuf))
                   in (Inr \<lparr> ActionID = take actionIDLen remainingBuf,
                              OutputID = take outputIDLen (drop actionIDLen remainingBuf),
                              Size = Uint64 (take 8 (drop (actionIDLen + outputIDLen) remainingBuf)),
                              Time = (if timeNano = UnixNano zero_time then zero_time
                                      else time_Unix0 timeNano) \<rparr>,
                       r2))))"

section \<open>Properties of the key codec\<close>

lemma hex_DecodeString_empty_iff:
  "hex_DecodeString s = Inr [] \<longleftrightarrow> s = []"
  by (cases s rule: hex_DecodeString.cases) (auto split: option.splits sum.splits)

lemma DecodeCacheEntityKey_roundtrip_example:
  "DecodeCacheEntityKey ''b/ab/abcd'' = Ok [0xab, 0xcd]"
  by (simp add: DecodeCacheEntityKey_def CacheEntityKey_def hex_byte_def hex_bytes_def
      hex_digit_def fromHexChar_def)

text \<open>
  The hex encoding is injective: two IDs have the same shard directory only if their first
  bytes are equal, and the same name stem only if they are equal.
\<close>

lemma hex_digit_inj:
  "n < 16 \<Longrightarrow> m < 16 \<Longrightarrow> hex_digit n = hex_digit m \<Longrightarrow> n = m"
proof -
  assume n: "n < 16" and m: "m < 16" and e: "hex_digit n = hex_digit m"
  have d: "distinct ''0123456789abcdef''" by simp
  have l: "length ''0123456789abcdef'' = 16" by simp
  from e have "''0123456789abcdef'' ! n = ''0123456789abcdef'' ! m"
    by (simp only: hex_digit_def)
  then show "n = m"
    using nth_eq_iff_index_eq [OF d, of n m] n m l by simp
qed

lemma hex_byte_inj: "hex_byte a = hex_byte b \<Longrightarrow> a = b"
proof -
  assume e: "hex_byte a = hex_byte b"
  have lt: "unat a div 16 < 16" "unat b div 16 < 16"
    using unsigned_less [of a, where 'a = nat] unsigned_less [of b, where 'a = nat]
    by simp_all
  from e have "hex_digit (unat a div 16) = hex_digit (unat b div 16)"
    and "hex_digit (unat a mod 16) = hex_digit (unat b mod 16)"
    by (simp_all add: hex_byte_def)
  then have "unat a div 16 = unat b div 16" and "unat a mod 16 = unat b mod 16"
    using lt by (auto intro: hex_digit_inj)
  then have "unat a = unat b"
    by (metis div_mult_mod_eq)
  then show "a = b" by (rule word_unat_eq_iff [THEN iffD2])
qed

lemma hex_bytes_inj: "hex_bytes a = hex_bytes b \<Longrightarrow> a = b"
proof (induction a arbitrary: b)
  case Nil
  then show ?case by (cases b) (simp_all add: hex_bytes_def hex_byte_def)
next
  case (Cons x xs)
  then obtain y ys where b: "b = y # ys"
    by (cases b) (simp_all add: hex_bytes_def hex_byte_def)
  from Cons.prems b have "hex_byte x @ hex_bytes xs = hex_byte y @ hex_bytes ys"
    by (simp add: hex_bytes_def)
  moreover have "length (hex_byte x) = length (hex_byte y)"
    by (simp add: hex_byte_def)
  ultimately have "hex_byte x = hex_byte y" and "hex_bytes xs = hex_bytes ys"
    by simp_all
  then show ?case
    using Cons.IH [of ys] b by (simp add: hex_byte_inj)
qed

section \<open>Properties of the EntryMeta codec\<close>

lemma bit_byte_slice32:
  "bit (push_bit k (ucast (ucast (drop_bit k v) :: byte)) :: 32 word) n
     \<longleftrightarrow> k \<le> n \<and> n < k + 8 \<and> bit (v :: 32 word) n"
  by (auto simp: bit_simps dest: bit_imp_le_length)

lemma bit_byte_slice64:
  "bit (push_bit k (ucast (ucast (drop_bit k v) :: byte)) :: 64 word) n
     \<longleftrightarrow> k \<le> n \<and> n < k + 8 \<and> bit (v :: 64 word) n"
  by (auto simp: bit_simps dest: bit_imp_le_length)

lemma Uint32_PutUint32: "Uint32 (PutUint32 v @ rest) = v"
proof (rule bit_word_eqI)
  fix n assume "n < LENGTH(32)"
  then have n: "n < 32" by simp
  have "Uint32 (PutUint32 v @ rest) =
      push_bit 0 (ucast (ucast (drop_bit 0 v) :: byte)) OR
      push_bit 8 (ucast (ucast (drop_bit 8 v) :: byte)) OR
      push_bit 16 (ucast (ucast (drop_bit 16 v) :: byte)) OR
      push_bit 24 (ucast (ucast (drop_bit 24 v) :: byte))"
    by (simp add: Uint32_def PutUint32_def)
  then show "bit (Uint32 (PutUint32 v @ rest)) n = bit v n"
    using n by (simp only: bit_or_iff bit_byte_slice32) auto
qed

lemma Uint64_PutUint64: "Uint64 (PutUint64 v @ rest) = v"
proof (rule bit_word_eqI)
  fix n assume "n < LENGTH(64)"
  then have n: "n < 64" by simp
  have "Uint64 (PutUint64 v @ rest) =
      push_bit 0 (ucast (ucast (drop_bit 0 v) :: byte)) OR
      push_bit 8 (ucast (ucast (drop_bit 8 v) :: byte)) OR
      push_bit 16 (ucast (ucast (drop_bit 16 v) :: byte)) OR
      push_bit 24 (ucast (ucast (drop_bit 24 v) :: byte)) OR
      push_bit 32 (ucast (ucast (drop_bit 32 v) :: byte)) OR
      push_bit 40 (ucast (ucast (drop_bit 40 v) :: byte)) OR
      push_bit 48 (ucast (ucast (drop_bit 48 v) :: byte)) OR
      push_bit 56 (ucast (ucast (drop_bit 56 v) :: byte))"
    by (simp add: Uint64_def PutUint64_def)
  then show "bit (Uint64 (PutUint64 v @ rest)) n = bit v n"
    using n by (simp only: bit_or_iff bit_byte_slice64) auto
qed

lemma length_PutUint32 [simp]: "length (PutUint32 v) = 4"
  by (simp add: PutUint32_def)

lemma length_PutUint64 [simp]: "length (PutUint64 v) = 8"
  by (simp add: PutUint64_def)

lemma Uint64_PutUint64_take: "Uint64 (take 8 (PutUint64 v @ rest)) = v"
  using Uint64_PutUint64 [of v "[]"] by simp

lemma Uint32_PutUint32_take: "Uint32 (take 4 (PutUint32 v @ rest)) = v"
  using Uint32_PutUint32 [of v "[]"] by simp

lemma Uint32_PutUint32_nil [simp]: "Uint32 (PutUint32 v) = v"
  using Uint32_PutUint32 [of v "[]"] by simp

lemma Uint64_PutUint64_nil [simp]: "Uint64 (PutUint64 v) = v"
  using Uint64_PutUint64 [of v "[]"] by simp

lemma ReadFull_append:
  "n = length xs \<Longrightarrow> ReadFull n (xs @ rest, fail) = (Inr xs, (rest, fail))"
  by (simp add: ReadFull_def)

lemma unat_len32: "n < 2 ^ 32 \<Longrightarrow> unat (word_of_nat n :: 32 word) = n"
  by (simp add: unat_of_nat)

lemma UnixNano_zero_time: "UnixNano zero_time = word_of_int (- 6795364578871345152)"
  by (simp add: UnixNano_def zero_time_def)

lemma UnixNano_eq_zero_iff:
  assumes "- (2 ^ 63) \<le> t" "t < 2 ^ 63"
  shows "UnixNano t = UnixNano zero_time \<longleftrightarrow> t = - 6795364578871345152"
proof -
  have "sint (UnixNano t) = t"
    using assms by (simp add: UnixNano_def sint_sbintrunc' signed_take_bit_int_eq_self)
  moreover have "sint (UnixNano zero_time) = - 6795364578871345152"
    by (simp add: UnixNano_def zero_time_def)
  ultimately have "UnixNano t = UnixNano zero_time \<Longrightarrow> t = - 6795364578871345152"
    by simp
  moreover have "t = - 6795364578871345152 \<Longrightarrow> UnixNano t = UnixNano zero_time"
    by (simp add: UnixNano_def zero_time_def)
  ultimately show ?thesis by blast
qed

lemma time_Unix0_UnixNano:
  "- (2 ^ 63) \<le> t \<Longrightarrow> t < 2 ^ 63 \<Longrightarrow> time_Unix0 (UnixNano t) = t"
  by (simp add: time_Unix0_def UnixNano_def sint_sbintrunc' signed_take_bit_int_eq_self)

lemma ReadEntryMeta_WriteTo_buf:
  assumes A: "length (ActionID m) < 2 ^ 32"
    and O: "length (OutputID m) < 2 ^ 32"
  shows "ReadEntryMeta (WriteTo_buf m @ rest, fail) =
     (Inr \<lparr> ActionID = ActionID m, OutputID = OutputID m, Size = Size m,
             Time = (if UnixNano (Time m) = UnixNano zero_time then zero_time
                     else time_Unix0 (UnixNano (Time m))) \<rparr>,
      (rest, fail))"
proof -
  let ?h = "PutUint32 (word_of_nat (length (ActionID m))) @ PutUint32 (word_of_nat (length (OutputID m)))"
  let ?b = "ActionID m @ OutputID m @ PutUint64 (Size m) @ PutUint64 (UnixNano (Time m))"
  have split: "WriteTo_buf m @ rest = ?h @ (?b @ rest)"
    by (simp add: WriteTo_buf_def)
  have r1: "ReadFull 8 (WriteTo_buf m @ rest, fail) = (Inr ?h, (?b @ rest, fail))"
    unfolding split by (rule ReadFull_append) simp
  have la: "unat (Uint32 (take 4 ?h)) = length (ActionID m)"
    using A by (simp add: unat_len32)
  have lo: "unat (Uint32 (take 4 (drop 4 ?h))) = length (OutputID m)"
    using O by (simp add: unat_len32)
  have r2: "ReadFull (length (ActionID m) + length (OutputID m) + 16) (?b @ rest, fail) = (Inr ?b, (rest, fail))"
    by (rule ReadFull_append) simp
  have sz: "Uint64 (take 8 (drop (length (ActionID m) + length (OutputID m)) ?b)) = Size m"
    by simp
  have tm: "Uint64 (take 8 (drop (length (ActionID m) + length (OutputID m) + 8) ?b)) = UnixNano (Time m)"
    by simp
  show ?thesis
    unfolding ReadEntryMeta_def r1
    by (simp only: prod.case sum.case Let_def la lo r2 sz tm) simp
qed

text \<open>
  Claim C3, as amended. For every EntryMeta \<open>m\<close> whose ActionID and OutputID are shorter
  than \<open>2^32\<close> bytes and whose Time is the zero value, or an instant that fits the 64-bit
  nanosecond count and is not the instant \<open>-6795364578871345152\<close> (1754-08-30
  22:43:41.128654848 UTC, whose count equals the wrapped count of the zero value), reading
  the serialization of \<open>m\<close> yields \<open>m\<close> (all four components, the zero time as the zero
  time) and leaves the rest of the stream; and the serialization is exactly
  \<open>SerializedSize m\<close> bytes long.
\<close>

theorem EntryMeta_roundtrip:
  assumes "length (ActionID m) < 2 ^ 32"
    and "length (OutputID m) < 2 ^ 32"
    and "Time m = zero_time \<or>
         (- (2 ^ 63) \<le> Time m \<and> Time m < 2 ^ 63 \<and> Time m \<noteq> - 6795364578871345152)"
  shows "ReadEntryMeta (WriteTo_buf m @ rest, fail) = (Inr m, (rest, fail)) \<and>
         length (WriteTo_buf m) = SerializedSize m"
proof -
  have "(if UnixNano (Time m) = UnixNano zero_time then zero_time
         else time_Unix0 (UnixNano (Time m))) = Time m"
    using assms(3) by (auto simp: UnixNano_eq_zero_iff time_Unix0_UnixNano)
  then have "ReadEntryMeta (WriteTo_buf m @ rest, fail) = (Inr m, (rest, fail))"
    using ReadEntryMeta_WriteTo_buf [OF assms(1,2), of rest fail] by simp
  moreover have "length (WriteTo_buf m) = SerializedSize m"
    by (simp add: WriteTo_buf_def SerializedSize_def)
  ultimately show ?thesis by simp
qed

theorem EntryMeta_roundtrip_witness:
  "ReadEntryMeta (WriteTo_buf \<lparr> ActionID = [1, 2], OutputID = [3], Size = 5, Time = zero_time \<rparr> @ [7], None)
     = (Inr \<lparr> ActionID = [1, 2], OutputID = [3], Size = 5, Time = zero_time \<rparr>, ([7], None)) \<and>
   length (WriteTo_buf \<lparr> ActionID = [1, 2], OutputID = [3], Size = 5, Time = zero_time \<rparr>)
     = SerializedSize \<lparr> ActionID = [1, 2], OutputID = [3], Size = 5, Time = zero_time \<rparr>"
  using EntryMeta_roundtrip [of "\<lparr> ActionID = [1, 2], OutputID = [3], Size = 5, Time = zero_time \<rparr>" "[7]" None]
  by simp

text \<open>
  The claim as stated (any Time) fails: the instant \<open>-6795364578871345152\<close> is written as
  the same eight bytes as the zero time, and is read back as the zero time.
\<close>

theorem EntryMeta_roundtrip_counterexample:
  "ReadEntryMeta (WriteTo_buf \<lparr> ActionID = [1], OutputID = [2], Size = 0,
                                Time = - 6795364578871345152 \<rparr>, None)
     = (Inr \<lparr> ActionID = [1], OutputID = [2], Size = 0, Time = zero_time \<rparr>, ([], None)) \<and>
   zero_time \<noteq> - 6795364578871345152"
proof -
  have "ReadEntryMeta (WriteTo_buf \<lparr> ActionID = [1], OutputID = [2], Size = 0,
                                Time = - 6795364578871345152 \<rparr> @ [], None)
     = (Inr \<lparr> ActionID = [1], OutputID = [2], Size = 0, Time = zero_time \<rparr>, ([], None))"
    by (subst ReadEntryMeta_WriteTo_buf) (simp_all add: UnixNano_def zero_time_def)
  then show ?thesis by (simp add: zero_time_def)
qed

section \<open>Line reader (internal/util/linereader.go)\<close>

text \<open>
  The \<open>bufio.Reader\<close> under a \<open>LineChunkedReader\<close> is modelled by what its successive
  \<open>ReadLine\<close> calls return: the pending results \<open>(line, isPrefix)\<close>, in order, and the
  error returned by every call once they are used up (\<open>io.EOF\<close> at the end of the input).
  An empty line of the input is the result \<open>([], False)\<close>.
\<close>

record LineChunkedReader =
  pending :: "(bytes \<times> bool) list"
  final :: error

definition ReadLine :: "LineChunkedReader \<Rightarrow> (error + bytes \<times> bool) \<times> LineChunkedReader" where
  "ReadLine r =
     (case pending r of
        [] \<Rightarrow> (Inl (final r), r)
      | x # rest \<Rightarrow> (Inr x, r\<lparr>pending := rest\<rparr>))"

function NextValidLine_loop ::
  "nat \<Rightarrow> LineChunkedReader \<Rightarrow> (error + bytes \<times> bool) \<times> LineChunkedReader" where
  "NextValidLine_loop attempts r =
     (if attempts + 1 > 10 then (Inl ErrNoProgress, r)
      else
        (case ReadLine r of
           (Inl err, r') \<Rightarrow> (Inl err, r')
         | (Inr (line, isPrefix), r') \<Rightarrow>
             if length line = 0 then NextValidLine_loop (attempts + 1) r'
             else (Inr (line, isPrefix), r')))"
  by pat_completeness auto
termination
  by (relation "measure (\<lambda>(attempts, r). 11 - attempts)") auto

declare NextValidLine_loop.simps [simp del]

definition NextValidLine :: "LineChunkedReader \<Rightarrow> (error + bytes \<times> bool) \<times> LineChunkedReader" where
  "NextValidLine r = NextValidLine_loop 0 r"

lemma ReadLine_pending:
  "ReadLine r = (x, r') \<Longrightarrow> length (pending r') \<le> length (pending r)"
  by (auto simp: ReadLine_def split: list.splits)

lemma ReadLine_Inr_pending:
  "ReadLine r = (Inr x, r') \<Longrightarrow> length (pending r') < length (pending r)"
  by (auto simp: ReadLine_def split: list.splits)

lemma NextValidLine_loop_Inr_pending:
  "NextValidLine_loop a r = (Inr x, r') \<Longrightarrow> length (pending r') < length (pending r)"
proof (induction a r rule: NextValidLine_loop.induct)
  case (1 attempts r)
  show ?case
  proof (cases "attempts + 1 > 10")
    case True
    with "1.prems" show ?thesis by (simp add: NextValidLine_loop.simps [of attempts r])
  next
    case False
    obtain res r1 where rl: "ReadLine r = (res, r1)" by (cases "ReadLine r")
    show ?thesis
    proof (cases res)
      case (Inl e)
      with "1.prems" False rl show ?thesis by (simp add: NextValidLine_loop.simps [of attempts r])
    next
      case (Inr lp)
      obtain line isPrefix where lp: "lp = (line, isPrefix)" by (cases lp)
      have lt: "length (pending r1) < length (pending r)"
        using rl Inr by (auto dest: ReadLine_Inr_pending)
      show ?thesis
      proof (cases "length line = 0")
        case True
        then have "NextValidLine_loop (attempts + 1) r1 = (Inr x, r')"
          using "1.prems" False rl Inr lp by (simp add: NextValidLine_loop.simps [of attempts r])
        then have "length (pending r') < length (pending r1)"
          using "1.IH" [OF False rl [symmetric] Inr lp [symmetric] True] by simp
        with lt show ?thesis by simp
      next
        case nonempty: False
        then have "r' = r1" using "1.prems" False rl Inr lp
          by (simp add: NextValidLine_loop.simps [of attempts r])
        with lt show ?thesis by simp
      qed
    qed
  qed
qed

lemma NextValidLine_loop_pending:
  "NextValidLine_loop a r = (x, r') \<Longrightarrow> length (pending r') \<le> length (pending r)"
proof (induction a r rule: NextValidLine_loop.induct)
  case (1 attempts r)
  show ?case
  proof (cases "attempts + 1 > 10")
    case True
    with "1.prems" show ?thesis by (simp add: NextValidLine_loop.simps [of attempts r])
  next
    case False
    obtain res r1 where rl: "ReadLine r = (res, r1)" by (cases "ReadLine r")
    have le: "length (pending r1) \<le> length (pending r)"
      using rl by (rule ReadLine_pending)
    show ?thesis
    proof (cases res)
      case (Inl e)
      with "1.prems" False rl le show ?thesis
        by (simp add: NextValidLine_loop.simps [of attempts r])
    next
      case (Inr lp)
      obtain line isPrefix where lp: "lp = (line, isPrefix)" by (cases lp)
      show ?thesis
      proof (cases "length line = 0")
        case True
        then have "NextValidLine_loop (attempts + 1) r1 = (x, r')"
          using "1.prems" False rl Inr lp by (simp add: NextValidLine_loop.simps [of attempts r])
        then have "length (pending r') \<le> length (pending r1)"
          using "1.IH" [OF False rl [symmetric] Inr lp [symmetric] True] by simp
        with le show ?thesis by simp
      next
        case nonempty: False
        then have "r' = r1" using "1.prems" False rl Inr lp
          by (simp add: NextValidLine_loop.simps [of attempts r])
        with le show ?thesis by simp
      qed
    qed
  qed
qed

lemma NextValidLine_Inr_pending:
  "NextValidLine r = (Inr x, r') \<Longrightarrow> length (pending r') < length (pending r)"
  unfolding NextValidLine_def by (rule NextValidLine_loop_Inr_pending)


section \<open>Protocol engine (internal/cacheprog/cacheprog.go)\<close>

record CacheProgRequest =
  req_ID :: int
  req_Command :: string
  req_ActionID :: bytes
  req_OutputID :: bytes
  req_BodySize :: "64 word"

text \<open>
  What the read loop hands to the handler, in the order of the records: a put with the
  chunks written to its pipe and the way the pipe was closed, a get, or the error answer
  to an unknown command. The handlers run as background tasks; the loop itself is
  sequential. \<open>json.Unmarshal\<close> is a parameter \<open>decode\<close> of the loop. The lifecycle
  context, which only a failed response write of a background task cancels, is taken as
  not cancelled.
\<close>

datatype pipe_close = PipeClose | PipeCloseWithError error

datatype dispatch =
    HandlerPut CacheProgRequest "bytes list" pipe_close
  | HandlerGet CacheProgRequest
  | UnknownCommand CacheProgRequest

lemma NextValidLine_Inr_pending_sym:
  "(Inr x, r') = NextValidLine r \<Longrightarrow> length (pending r') < length (pending r)"
  using NextValidLine_Inr_pending [of r x r'] by simp

function readBody ::
  "LineChunkedReader \<Rightarrow> bytes list \<Rightarrow> (bytes list \<times> error option) \<times> LineChunkedReader" where
  "readBody r chunks =
     (case NextValidLine r of
        (Inl err, r') \<Rightarrow> ((chunks, Some err), r')
      | (Inr (lineChunk, isPrefix), r') \<Rightarrow>
          if \<not> isPrefix then ((chunks @ [lineChunk], None), r')
          else readBody r' (chunks @ [lineChunk]))"
  by pat_completeness auto
termination
  by (relation "measure (\<lambda>(r, chunks). length (pending r))")
     (auto dest: NextValidLine_Inr_pending_sym)

declare readBody.simps [simp del]

lemma readBody_unfold:
  "readBody r chunks =
     (case NextValidLine r of
        (Inl err, r') \<Rightarrow> ((chunks, Some err), r')
      | (Inr (lineChunk, isPrefix), r') \<Rightarrow>
          if \<not> isPrefix then ((chunks @ [lineChunk], None), r')
          else readBody r' (chunks @ [lineChunk]))"
  by (rule readBody.simps)

lemma readBody_pending:
  "readBody r chunks = (out, r') \<Longrightarrow> length (pending r') \<le> length (pending r)"
proof (induction r chunks arbitrary: out r' rule: readBody.induct)
  case (1 r chunks)
  obtain res r1 where nv: "NextValidLine r = (res, r1)" by (cases "NextValidLine r")
  show ?case
  proof (cases res)
    case (Inl e)
    then have "r' = r1" using "1.prems" nv by (simp add: readBody_unfold [of r])
    moreover have "length (pending r1) \<le> length (pending r)"
      using nv unfolding NextValidLine_def by (rule NextValidLine_loop_pending)
    ultimately show ?thesis by simp
  next
    case (Inr lp)
    obtain lineChunk isPrefix where lp: "lp = (lineChunk, isPrefix)" by (cases lp)
    have lt: "length (pending r1) < length (pending r)"
      using nv Inr by (auto dest: NextValidLine_Inr_pending)
    show ?thesis
    proof (cases isPrefix)
      case True
      then have "readBody r1 (chunks @ [lineChunk]) = (out, r')"
        using "1.prems" nv Inr lp by (simp add: readBody_unfold [of r])
      then have "length (pending r') \<le> length (pending r1)"
        using "1.IH" [OF nv [symmetric] Inr lp [symmetric]] True by simp
      with lt show ?thesis by simp
    next
      case False
      then have "r' = r1" using "1.prems" nv Inr lp by (simp add: readBody_unfold [of r])
      with lt show ?thesis by simp
    qed
  qed
qed

lemma readBody_pending_sym:
  "(out, r') = readBody r chunks \<Longrightarrow> length (pending r') \<le> length (pending r)"
  using readBody_pending [of r chunks out r'] by simp

function readLoop ::
  "(bytes \<Rightarrow> CacheProgRequest option) \<Rightarrow> LineChunkedReader \<Rightarrow> dispatch list \<times> error option" where
  "readLoop decode r =
     (case NextValidLine r of
        (Inl err, r') \<Rightarrow>
          if err = EOF then ([], None)
          else ([], Some (Wrapf ''failed to read from stdin'' err))
      | (Inr (line, isPrefix), r') \<Rightarrow>
          if isPrefix then ([], Some (Errorf ''unexpected large line from stdin''))
          else
            (case decode line of
               None \<Rightarrow> ([], Some (Errorf ''failed to decode incoming request''))
             | Some req \<Rightarrow>
                 if req_Command req = ''close'' then ([], None)
                 else if req_Command req = ''put'' then
                   (if req_BodySize req = 0 then
                      (case readLoop decode r' of
                         (ds, res) \<Rightarrow> (HandlerPut req [] PipeClose # ds, res))
                    else
                      (case readBody r' [] of
                         ((chunks, Some err), r'') \<Rightarrow>
                           ([HandlerPut req chunks (PipeCloseWithError ErrClosedPipe)],
                            Some (Wrapf ''failed to read CmdPut body'' err))
                       | ((chunks, None), r'') \<Rightarrow>
                           (case readLoop decode r'' of
                              (ds, res) \<Rightarrow> (HandlerPut req chunks PipeClose # ds, res))))
                 else if req_Command req = ''get'' then
                   (case readLoop decode r' of (ds, res) \<Rightarrow> (HandlerGet req # ds, res))
                 else
                   (case readLoop decode r' of (ds, res) \<Rightarrow> (UnknownCommand req # ds, res))))"
  by pat_completeness auto
termination
proof (relation "measure (\<lambda>(decode, r). length (pending r))", goal_cases)
  case 1
  show ?case by simp
next
  case (2 decode r x y x2 a b req)
  then show ?case by (auto dest: NextValidLine_Inr_pending_sym)
next
  case (3 decode r x y x2 a b req x3 r'' c d)
  have "length (pending y) < length (pending r)"
    using 3 by (auto dest: NextValidLine_Inr_pending_sym)
  moreover have "length (pending r'') \<le> length (pending y)"
    using 3 by (auto dest: readBody_pending_sym)
  ultimately show ?case by simp
next
  case (4 decode r x y x2 a b req)
  then show ?case by (auto dest: NextValidLine_Inr_pending_sym)
next
  case (5 decode r x y x2 a b req)
  then show ?case by (auto dest: NextValidLine_Inr_pending_sym)
qed

declare readLoop.simps [simp del]


section \<open>Empty lines in the request stream\<close>

definition is_empty_line :: "bytes \<times> bool \<Rightarrow> bool" where
  "is_empty_line x = (fst x = [])"

text \<open>A decoder for the concrete runs below: it knows one record, a close request.\<close>

definition decode_close_only :: "bytes \<Rightarrow> CacheProgRequest option" where
  "decode_close_only line =
     (if line = [1] then
        Some \<lparr> req_ID = 1, req_Command = ''close'', req_ActionID = [], req_OutputID = [],
               req_BodySize = 0 \<rparr>
      else None)"

lemma NextValidLine_loop_found:
  "pending r = ps \<Longrightarrow> a + length (takeWhile is_empty_line ps) < 10 \<Longrightarrow>
   NextValidLine_loop a r =
     (case dropWhile is_empty_line ps of
        [] \<Rightarrow> (Inl (final r), r\<lparr>pending := []\<rparr>)
      | x # rest \<Rightarrow> (Inr x, r\<lparr>pending := rest\<rparr>))"
proof (induction ps arbitrary: a r)
  case Nil
  then show ?case
    by (cases r) (simp add: ReadLine_def NextValidLine_loop.simps [of a])
next
  case (Cons p ps)
  obtain line isPrefix where p: "p = (line, isPrefix)" by (cases p)
  have rl: "ReadLine r = (Inr p, r\<lparr>pending := ps\<rparr>)"
    using Cons.prems(1) by (simp add: ReadLine_def)
  show ?case
  proof (cases "line = []")
    case True
    then have e: "is_empty_line p" by (simp add: is_empty_line_def p)
    have ih: "NextValidLine_loop (a + 1) (r\<lparr>pending := ps\<rparr>) =
      (case dropWhile is_empty_line ps of
         [] \<Rightarrow> (Inl (final (r\<lparr>pending := ps\<rparr>)), r\<lparr>pending := ps\<rparr>\<lparr>pending := []\<rparr>)
       | x # rest \<Rightarrow> (Inr x, r\<lparr>pending := ps\<rparr>\<lparr>pending := rest\<rparr>))"
      using Cons.prems(2) e by (intro Cons.IH) simp_all
    have step: "NextValidLine_loop a r = NextValidLine_loop (a + 1) (r\<lparr>pending := ps\<rparr>)"
      using Cons.prems(2) rl True p by (subst NextValidLine_loop.simps) simp
    have dw: "dropWhile is_empty_line (p # ps) = dropWhile is_empty_line ps"
      using e by simp
    show ?thesis
    proof (cases "dropWhile is_empty_line ps")
      case Nil
      show ?thesis by (simp only: step ih dw Nil list.case) simp
    next
      case (Cons y rest)
      show ?thesis by (simp only: step ih dw Cons list.case) simp
    qed
  next
    case False
    then have e: "\<not> is_empty_line p" by (simp add: is_empty_line_def p)
    show ?thesis
      using Cons.prems(2) e rl False p
      by (subst NextValidLine_loop.simps) simp
  qed
qed

lemma NextValidLine_loop_no_progress:
  "pending r = ps \<Longrightarrow> 10 \<le> a + length (takeWhile is_empty_line ps) \<Longrightarrow>
   fst (NextValidLine_loop a r) = Inl ErrNoProgress"
proof (induction ps arbitrary: a r)
  case Nil
  then show ?case by (subst NextValidLine_loop.simps) simp
next
  case (Cons p ps)
  obtain line isPrefix where p: "p = (line, isPrefix)" by (cases p)
  have rl: "ReadLine r = (Inr p, r\<lparr>pending := ps\<rparr>)"
    using Cons.prems(1) by (simp add: ReadLine_def)
  show ?case
  proof (cases "10 < a + 1")
    case True
    then show ?thesis by (subst NextValidLine_loop.simps) simp
  next
    case False
    then have e: "is_empty_line p" using Cons.prems(2) by (auto split: if_splits)
    then have l: "line = []" by (simp add: is_empty_line_def p)
    have "fst (NextValidLine_loop (a + 1) (r\<lparr>pending := ps\<rparr>)) = Inl ErrNoProgress"
      using Cons.prems(2) e by (intro Cons.IH) simp_all
    then show ?thesis
      using False rl l p by (subst NextValidLine_loop.simps) simp
  qed
qed

text \<open>
  Two readers are related when they are equal, or agree up to a run \<open>es\<close> of empty results
  that the first has between \<open>xs\<close> and \<open>ys\<close>, where \<open>es\<close> is the whole run: neither \<open>xs\<close>
  ends nor \<open>ys\<close> begins with an empty result.
\<close>

definition padded ::
  "(bytes \<times> bool) list \<Rightarrow> (bytes \<times> bool) list \<Rightarrow> LineChunkedReader \<Rightarrow>
   LineChunkedReader \<Rightarrow> bool" where
  "padded es ys r1 r2 =
     (r1 = r2 \<or>
      (\<exists>xs. (xs = [] \<or> \<not> is_empty_line (last xs)) \<and>
            pending r1 = xs @ es @ ys \<and>
            pending r2 = xs @ ys \<and> final r1 = final r2 \<and>
            LineChunkedReader.more r1 = LineChunkedReader.more r2))"

lemma takeWhile_empty_run:
  "list_all is_empty_line es \<Longrightarrow> ys = [] \<or> \<not> is_empty_line (hd ys) \<Longrightarrow>
   takeWhile is_empty_line (es @ ys) = es"
  by (induction es) (auto simp: takeWhile_eq_Nil_iff)

lemma dropWhile_empty_run:
  "list_all is_empty_line es \<Longrightarrow> ys = [] \<or> \<not> is_empty_line (hd ys) \<Longrightarrow>
   dropWhile is_empty_line (es @ ys) = ys"
  by (induction es) (auto simp: dropWhile_eq_self_iff)

lemma takeWhile_replicate_empty:
  "ys = [] \<or> \<not> is_empty_line (hd ys) \<Longrightarrow>
   takeWhile is_empty_line (replicate n ([], False) @ ys) = replicate n ([], False)"
  by (induction n) (auto simp: is_empty_line_def takeWhile_eq_Nil_iff)

lemma dropWhile_replicate_empty:
  "ys = [] \<or> \<not> is_empty_line (hd ys) \<Longrightarrow>
   dropWhile is_empty_line (replicate n ([], False) @ ys) = ys"
  by (induction n) (auto simp: is_empty_line_def dropWhile_eq_self_iff)

lemma takeWhile_prefix_nonempty_last:
  "xs \<noteq> [] \<Longrightarrow> \<not> P (last xs) \<Longrightarrow> takeWhile P (xs @ zs) = takeWhile P xs"
  by (induction xs) (auto split: if_splits)

lemma dropWhile_prefix_nonempty_last:
  "xs \<noteq> [] \<Longrightarrow> \<not> P (last xs) \<Longrightarrow> dropWhile P (xs @ zs) = dropWhile P xs @ zs"
  by (induction xs) (auto split: if_splits)

lemma dropWhile_nonempty_last:
  "xs \<noteq> [] \<Longrightarrow> \<not> P (last xs) \<Longrightarrow>
   \<exists>x xs'. dropWhile P xs = x # xs' \<and> (xs' = [] \<or> last xs' = last xs)"
  by (induction xs) (auto split: if_splits)

lemma NextValidLine_padded:
  assumes n: "length es \<le> 9" and es: "list_all is_empty_line es"
    and ys: "ys = [] \<or> \<not> is_empty_line (hd ys)"
    and rel: "padded es ys r1 r2"
  shows "(\<exists>e r1' r2'. NextValidLine r1 = (Inl e, r1') \<and> NextValidLine r2 = (Inl e, r2')) \<or>
         (\<exists>x r1' r2'. NextValidLine r1 = (Inr x, r1') \<and> NextValidLine r2 = (Inr x, r2') \<and>
                      padded es ys r1' r2')"
proof (cases "r1 = r2")
  case True
  obtain res r' where nv: "NextValidLine r2 = (res, r')" by (cases "NextValidLine r2")
  show ?thesis using True nv by (cases res) (auto simp: padded_def)
next
  case False
  then obtain xs where xs: "xs = [] \<or> \<not> is_empty_line (last xs)"
    and p1: "pending r1 = xs @ es @ ys"
    and p2: "pending r2 = xs @ ys" and f: "final r1 = final r2"
    and m: "LineChunkedReader.more r1 = LineChunkedReader.more r2"
    using rel by (auto simp: padded_def)
  show ?thesis
  proof (cases "xs = []")
    case True
    have t1: "takeWhile is_empty_line (pending r1) = es"
      using True p1 ys es by (simp add: takeWhile_empty_run)
    have d1: "dropWhile is_empty_line (pending r1) = ys"
      using True p1 ys es by (simp add: dropWhile_empty_run)
    have t2: "takeWhile is_empty_line (pending r2) = []"
      using True p2 ys by (cases ys) auto
    have d2: "dropWhile is_empty_line (pending r2) = ys"
      using True p2 ys by (cases ys) auto
    have nv1: "NextValidLine r1 =
        (case ys of [] \<Rightarrow> (Inl (final r1), r1\<lparr>pending := []\<rparr>)
         | x # rest \<Rightarrow> (Inr x, r1\<lparr>pending := rest\<rparr>))"
      unfolding NextValidLine_def
      using NextValidLine_loop_found [of r1 "pending r1" 0] n t1 d1 by simp
    have nv2: "NextValidLine r2 =
        (case ys of [] \<Rightarrow> (Inl (final r2), r2\<lparr>pending := []\<rparr>)
         | x # rest \<Rightarrow> (Inr x, r2\<lparr>pending := rest\<rparr>))"
      unfolding NextValidLine_def
      using NextValidLine_loop_found [of r2 "pending r2" 0] t2 d2 by simp
    have eq: "\<And>ps. r1\<lparr>pending := ps\<rparr> = r2\<lparr>pending := ps\<rparr>"
      using f m by (cases r1, cases r2) simp
    show ?thesis
      using nv1 nv2 f eq by (cases ys) (auto simp: padded_def)
  next
    case ne: False
    then have last: "\<not> is_empty_line (last xs)" using xs by simp
    have t1: "takeWhile is_empty_line (pending r1) = takeWhile is_empty_line xs"
      using p1 ne last by (simp add: takeWhile_prefix_nonempty_last)
    have t2: "takeWhile is_empty_line (pending r2) = takeWhile is_empty_line xs"
      using p2 ne last by (simp add: takeWhile_prefix_nonempty_last)
    obtain x xs' where dx: "dropWhile is_empty_line xs = x # xs'"
      and xs': "xs' = [] \<or> last xs' = last xs"
      using dropWhile_nonempty_last [of xs is_empty_line] ne last by blast
    have d1: "dropWhile is_empty_line (pending r1) = x # xs' @ es @ ys"
      using p1 ne last dx by (simp add: dropWhile_prefix_nonempty_last)
    have d2: "dropWhile is_empty_line (pending r2) = x # xs' @ ys"
      using p2 ne last dx by (simp add: dropWhile_prefix_nonempty_last)
    show ?thesis
    proof (cases "length (takeWhile is_empty_line xs) < 10")
      case True
      have nv1: "NextValidLine r1 = (Inr x, r1\<lparr>pending := xs' @ es @ ys\<rparr>)"
        unfolding NextValidLine_def
        using NextValidLine_loop_found [of r1 "pending r1" 0] True t1 d1 by simp
      have nv2: "NextValidLine r2 = (Inr x, r2\<lparr>pending := xs' @ ys\<rparr>)"
        unfolding NextValidLine_def
        using NextValidLine_loop_found [of r2 "pending r2" 0] True t2 d2 by simp
      have "padded es ys (r1\<lparr>pending := xs' @ es @ ys\<rparr>)
              (r2\<lparr>pending := xs' @ ys\<rparr>)"
        unfolding padded_def using xs' last f m by auto
      with nv1 nv2 show ?thesis by blast
    next
      case False
      have "fst (NextValidLine r1) = Inl ErrNoProgress"
        unfolding NextValidLine_def
        using NextValidLine_loop_no_progress [of r1 "pending r1" 0] False t1 by simp
      moreover have "fst (NextValidLine r2) = Inl ErrNoProgress"
        unfolding NextValidLine_def
        using NextValidLine_loop_no_progress [of r2 "pending r2" 0] False t2 by simp
      ultimately show ?thesis
        by (cases "NextValidLine r1", cases "NextValidLine r2") auto
    qed
  qed
qed


lemma readBody_padded:
  assumes n: "length es \<le> 9" and es: "list_all is_empty_line es"
    and ys: "ys = [] \<or> \<not> is_empty_line (hd ys)"
  shows "padded es ys r1 r2 \<Longrightarrow>
    fst (readBody r1 c) = fst (readBody r2 c) \<and>
    (snd (fst (readBody r2 c)) = None \<longrightarrow> padded es ys (snd (readBody r1 c)) (snd (readBody r2 c)))"
proof (induction "length (pending r2)" arbitrary: r1 r2 c rule: less_induct)
  case less
  from NextValidLine_padded [OF n es ys less.prems]
  consider (err) e r1' r2' where "NextValidLine r1 = (Inl e, r1')" "NextValidLine r2 = (Inl e, r2')"
    | (line) x r1' r2' where "NextValidLine r1 = (Inr x, r1')" "NextValidLine r2 = (Inr x, r2')"
        "padded es ys r1' r2'"
    by blast
  then show ?case
  proof cases
    case err
    then show ?thesis
      by (simp add: readBody_unfold [of r1] readBody_unfold [of r2])
  next
    case line
    obtain lineChunk isPrefix where x: "x = (lineChunk, isPrefix)" by (cases x)
    have lt: "length (pending r2') < length (pending r2)"
      using line(2) by (rule NextValidLine_Inr_pending)
    show ?thesis
    proof (cases isPrefix)
      case True
      have "readBody r1 c = readBody r1' (c @ [lineChunk])"
        using line(1) x True by (simp add: readBody_unfold [of r1])
      moreover have "readBody r2 c = readBody r2' (c @ [lineChunk])"
        using line(2) x True by (simp add: readBody_unfold [of r2])
      ultimately show ?thesis
        using less.hyps [OF lt line(3), of "c @ [lineChunk]"] by simp
    next
      case False
      then show ?thesis
        using line x by (simp add: readBody_unfold [of r1] readBody_unfold [of r2])
    qed
  qed
qed

lemma readLoop_padded:
  assumes n: "length es \<le> 9" and es: "list_all is_empty_line es"
    and ys: "ys = [] \<or> \<not> is_empty_line (hd ys)"
  shows "padded es ys r1 r2 \<Longrightarrow> readLoop decode r1 = readLoop decode r2"
proof (induction "length (pending r2)" arbitrary: r1 r2 rule: less_induct)
  case less
  from NextValidLine_padded [OF n es ys less.prems]
  consider (err) e r1' r2' where "NextValidLine r1 = (Inl e, r1')" "NextValidLine r2 = (Inl e, r2')"
    | (line) x r1' r2' where "NextValidLine r1 = (Inr x, r1')" "NextValidLine r2 = (Inr x, r2')"
        "padded es ys r1' r2'"
    by blast
  then show ?case
  proof cases
    case err
    then show ?thesis
      by (simp add: readLoop.simps [of decode r1] readLoop.simps [of decode r2])
  next
    case line
    obtain l isPrefix where x: "x = (l, isPrefix)" by (cases x)
    have lt: "length (pending r2') < length (pending r2)"
      using line(2) by (rule NextValidLine_Inr_pending)
    have ih1: "readLoop decode r1' = readLoop decode r2'"
      using less.hyps [OF lt line(3)] .
    obtain c1 e1 q1 where rb1: "readBody r1' [] = ((c1, e1), q1)"
      by (cases "readBody r1' []") auto
    obtain c2 e2 q2 where rb2: "readBody r2' [] = ((c2, e2), q2)"
      by (cases "readBody r2' []") auto
    have body: "c1 = c2" "e1 = e2" "e2 = None \<Longrightarrow> padded es ys q1 q2"
      using readBody_padded [OF n es ys line(3), of "[]"] rb1 rb2 by auto
    have "length (pending q2) \<le> length (pending r2')"
      using rb2 by (rule readBody_pending)
    then have ih2: "e2 = None \<Longrightarrow> readLoop decode q1 = readLoop decode q2"
      using less.hyps [of q2 q1] lt body(3) by simp
    show ?thesis
      using line(1,2) x ih1 rb1 rb2 body(1,2) ih2
      by (cases e2)
         (simp_all add: readLoop.simps [of decode r1] readLoop.simps [of decode r2]
            split: option.split)
  qed
qed

text \<open>
  A whole run of up to nine empty results (neither \<open>xs\<close> ends nor \<open>ys\<close> begins with one)
  leaves the read loop as it is without the run.
\<close>

lemma readLoop_empty_run:
  assumes "length es \<le> 9" and "list_all is_empty_line es"
    and "xs = [] \<or> \<not> is_empty_line (last xs)"
    and "ys = [] \<or> \<not> is_empty_line (hd ys)"
  shows "readLoop decode \<lparr> pending = xs @ es @ ys, final = e \<rparr> =
         readLoop decode \<lparr> pending = xs @ ys, final = e \<rparr>"
proof -
  have "padded es ys \<lparr> pending = xs @ es @ ys, final = e \<rparr>
          \<lparr> pending = xs @ ys, final = e \<rparr>"
    unfolding padded_def using assms(3) by auto
  then show ?thesis
    using assms(1,2,4) by (rule readLoop_padded [rotated 3])
qed

text \<open>
  Claim C10, as amended. Empty lines are ignored as long as the line reader meets at most
  nine empty results in a row. A request stream is the list of results of \<open>ReadLine\<close>; an
  empty result is an empty line, or the empty rest that \<open>ReadLine\<close> returns after a line
  that fills its buffer exactly. For every stream \<open>xs @ ys\<close> and every \<open>n\<close>: if the \<open>n\<close>
  empty lines inserted between \<open>xs\<close> and \<open>ys\<close>, the empty results that end \<open>xs\<close> and the
  empty results that begin \<open>ys\<close> are together at most nine, then the read loop on the
  stream with the inserted lines hands the same requests to the handlers and ends with
  the same result as on \<open>xs @ ys\<close>.
\<close>

theorem readLoop_ignores_empty_lines:
  assumes "length (takeWhile is_empty_line (rev xs)) + n +
           length (takeWhile is_empty_line ys) \<le> 9"
  shows "readLoop decode \<lparr> pending = xs @ replicate n ([], False) @ ys, final = e \<rparr> =
         readLoop decode \<lparr> pending = xs @ ys, final = e \<rparr>"
proof -
  let ?r1 = "rev (takeWhile is_empty_line (rev xs))"
  let ?xs' = "rev (dropWhile is_empty_line (rev xs))"
  let ?r2 = "takeWhile is_empty_line ys"
  let ?ys' = "dropWhile is_empty_line ys"
  have xs: "xs = ?xs' @ ?r1"
    by (metis rev_append rev_rev_ident takeWhile_dropWhile_id)
  have ys: "ys = ?r2 @ ?ys'"
    by simp
  have x': "?xs' = [] \<or> \<not> is_empty_line (last ?xs')"
  proof (cases "dropWhile is_empty_line (rev xs) = []")
    case True
    then show ?thesis by simp
  next
    case False
    then have "\<not> is_empty_line (hd (dropWhile is_empty_line (rev xs)))"
      by (rule hd_dropWhile)
    with False show ?thesis by (simp add: last_rev)
  qed
  have y': "?ys' = [] \<or> \<not> is_empty_line (hd ?ys')"
    using hd_dropWhile [of is_empty_line ys] by blast
  have e1: "list_all is_empty_line ?r1" "list_all is_empty_line ?r2"
    "list_all is_empty_line (replicate n ([], False))"
    by (auto simp: list_all_iff is_empty_line_def dest: set_takeWhileD)
  have a: "readLoop decode
             \<lparr> pending = ?xs' @ (?r1 @ replicate n ([], False) @ ?r2) @ ?ys', final = e \<rparr> =
           readLoop decode \<lparr> pending = ?xs' @ ?ys', final = e \<rparr>"
    using assms e1 x' y' by (intro readLoop_empty_run) simp_all
  have b: "readLoop decode \<lparr> pending = ?xs' @ (?r1 @ ?r2) @ ?ys', final = e \<rparr> =
           readLoop decode \<lparr> pending = ?xs' @ ?ys', final = e \<rparr>"
    using assms e1 x' y' by (intro readLoop_empty_run) simp_all
  have p1: "xs @ replicate n ([], False) @ ys =
            ?xs' @ (?r1 @ replicate n ([], False) @ ?r2) @ ?ys'"
    using xs ys by (metis append.assoc)
  have p2: "xs @ ys = ?xs' @ (?r1 @ ?r2) @ ?ys'"
    using xs ys by (metis append.assoc)
  show ?thesis
    unfolding p1 p2 a b ..
qed

theorem readLoop_ignores_empty_lines_witness:
  "readLoop decode_close_only
     \<lparr> pending = [([], False)] @ replicate 8 ([], False) @ [([1], False)], final = EOF \<rparr> =
   readLoop decode_close_only \<lparr> pending = [([], False)] @ [([1], False)], final = EOF \<rparr>"
  by (rule readLoop_ignores_empty_lines) (simp add: is_empty_line_def)

text \<open>
  The claim as stated (any number of empty lines) fails: with ten empty lines before a
  close request the loop ends with the error \<open>io.ErrNoProgress\<close>, without them it ends
  normally.
\<close>

theorem readLoop_empty_lines_counterexample:
  "readLoop decode_close_only
     \<lparr> pending = replicate 10 ([], False) @ [([1], False)], final = EOF \<rparr> =
     ([], Some (Wrapf ''failed to read from stdin'' ErrNoProgress)) \<and>
   readLoop decode_close_only \<lparr> pending = [([1], False)], final = EOF \<rparr> = ([], None)"
proof -
  have "fst (NextValidLine \<lparr> pending = replicate 10 ([], False) @ [([1], False)], final = EOF \<rparr>)
          = Inl ErrNoProgress"
    unfolding NextValidLine_def
    by (rule NextValidLine_loop_no_progress [where ps = "replicate 10 ([], False) @ [([1], False)]"])
       (simp_all add: takeWhile_replicate_empty is_empty_line_def)
  then have a: "readLoop decode_close_only
     \<lparr> pending = replicate 10 ([], False) @ [([1], False)], final = EOF \<rparr> =
     ([], Some (Wrapf ''failed to read from stdin'' ErrNoProgress))"
    by (subst readLoop.simps) (auto split: prod.splits sum.splits)
  have "NextValidLine \<lparr> pending = [([1], False)], final = EOF \<rparr>
          = (Inr ([1], False), \<lparr> pending = [], final = EOF \<rparr>)"
    unfolding NextValidLine_def
    using NextValidLine_loop_found [of "\<lparr> pending = [([1], False)], final = EOF \<rparr>" "[([1], False)]" 0]
    by (simp add: is_empty_line_def)
  then have b: "readLoop decode_close_only \<lparr> pending = [([1], False)], final = EOF \<rparr> = ([], None)"
    by (subst readLoop.simps) (simp add: decode_close_only_def)
  from a b show ?thesis by simp
qed

section \<open>File system\<close>

text \<open>
  A path is the list of its elements, as \<open>filepath.Join\<close> puts them together (the elements
  hold no separator); \<open>filepath.Dir\<close> of a joined path drops the last element. The disk is
  an association list from paths to nodes, together with an oracle \<open>fails\<close> saying which
  system calls fail for a reason outside the model (permissions, a full disk). The empty
  path stands for a root that always exists. Modification times are not held.
\<close>

type_synonym path = "string list"

datatype node = File bytes | Dir

datatype syscall =
    SysStat path
  | SysMkdirAll path
  | SysCreate path
  | SysWrite path
  | SysRename path path
  | SysOpen path
  | SysRead path
  | SysRemove path

record disk =
  nodes :: "(path \<times> node) list"
  fails :: "syscall \<Rightarrow> bool"

definition lookup :: "disk \<Rightarrow> path \<Rightarrow> node option" where
  "lookup d p = map_of (nodes d) p"

definition store_node :: "disk \<Rightarrow> path \<Rightarrow> node \<Rightarrow> disk" where
  "store_node d p n = d\<lparr>nodes := AList.update p n (nodes d)\<rparr>"

definition delete_node :: "disk \<Rightarrow> path \<Rightarrow> disk" where
  "delete_node d p = d\<lparr>nodes := AList.delete p (nodes d)\<rparr>"

definition is_dir :: "disk \<Rightarrow> path \<Rightarrow> bool" where
  "is_dir d p = (p = [] \<or> lookup d p = Some Dir)"

definition render :: "path \<Rightarrow> string" where
  "render p = (case p of [] \<Rightarrow> [] | c # cs \<Rightarrow> c @ concat (map (\<lambda>x. ''/'' @ x) cs))"

definition os_Stat :: "disk \<Rightarrow> path \<Rightarrow> error + node" where
  "os_Stat d p =
     (if fails d (SysStat p) then Inl ErrIO
      else case lookup d p of None \<Rightarrow> Inl ErrNotExist | Some n \<Rightarrow> Inr n)"

text \<open>
  \<open>os.MkdirAll\<close>: nothing to do for a directory, an error for another kind of file,
  otherwise the parent first and then the directory itself. The argument of
  \<open>MkdirAll_nodes\<close> is the path reversed.
\<close>

fun MkdirAll_nodes :: "disk \<Rightarrow> path \<Rightarrow> disk option" where
  "MkdirAll_nodes d [] = Some d"
| "MkdirAll_nodes d (c # rparent) =
     (case lookup d (rev (c # rparent)) of
        Some Dir \<Rightarrow> Some d
      | Some (File _) \<Rightarrow> None
      | None \<Rightarrow>
          (case MkdirAll_nodes d rparent of
             None \<Rightarrow> None
           | Some d' \<Rightarrow> Some (store_node d' (rev (c # rparent)) Dir)))"

definition os_MkdirAll :: "disk \<Rightarrow> path \<Rightarrow> error option \<times> disk" where
  "os_MkdirAll d p =
     (if fails d (SysMkdirAll p) then (Some ErrIO, d)
      else case MkdirAll_nodes d (rev p) of
             None \<Rightarrow> (Some (Errorf ''not a directory''), d)
           | Some d' \<Rightarrow> (None, d'))"

text \<open>\<open>os.Create\<close> opens with \<open>O_CREATE\<close> and \<open>O_TRUNC\<close>: the file is empty afterwards.\<close>

definition os_Create :: "disk \<Rightarrow> path \<Rightarrow> error + disk" where
  "os_Create d p =
     (if fails d (SysCreate p) then Inl ErrIO
      else if p = [] \<or> \<not> is_dir d (butlast p) then Inl ErrNotExist
      else if lookup d p = Some Dir then Inl (Errorf ''is a directory'')
      else Inr (store_node d p (File [])))"

text \<open>
  Writing to the file just created at \<open>p\<close>. \<open>io.Copy\<close> writes what the reader yields and
  returns the count and the reader's error, if it ends with one.
\<close>

definition file_Write :: "disk \<Rightarrow> path \<Rightarrow> bytes \<Rightarrow> error option \<times> disk" where
  "file_Write d p bs =
     (if fails d (SysWrite p) then (Some ErrIO, d)
      else (None, store_node d p (File bs)))"

definition io_Copy :: "disk \<Rightarrow> path \<Rightarrow> reader \<Rightarrow> (nat \<times> error option) \<times> disk" where
  "io_Copy d p r =
     (case r of (data, fail) \<Rightarrow>
        (case file_Write d p data of
           (Some e, d') \<Rightarrow> ((0, Some e), d')
         | (None, d') \<Rightarrow> ((length data, fail), d')))"

definition os_Rename :: "disk \<Rightarrow> path \<Rightarrow> path \<Rightarrow> error option \<times> disk" where
  "os_Rename d old new =
     (if fails d (SysRename old new) then (Some ErrIO, d)
      else case lookup d old of
             None \<Rightarrow> (Some ErrNotExist, d)
           | Some n \<Rightarrow>
               if new = [] \<or> \<not> is_dir d (butlast new) then (Some ErrNotExist, d)
               else if lookup d new = Some Dir then (Some (Errorf ''file exists''), d)
               else (None, store_node (delete_node d old) new n))"

text \<open>
  \<open>os.Open\<close> followed by reads: a directory opens, and every read of it fails.
\<close>

definition os_Open :: "disk \<Rightarrow> path \<Rightarrow> error + reader" where
  "os_Open d p =
     (if fails d (SysOpen p) then Inl ErrIO
      else case lookup d p of
             None \<Rightarrow> Inl ErrNotExist
           | Some Dir \<Rightarrow> Inr ([], Some (Errorf ''is a directory''))
           | Some (File bs) \<Rightarrow>
               if fails d (SysRead p) then Inr ([], Some ErrIO) else Inr (bs, None))"

text \<open>\<open>os.Remove\<close>, its error dropped as every caller does: a directory goes only if empty.\<close>

definition os_Remove :: "disk \<Rightarrow> path \<Rightarrow> disk" where
  "os_Remove d p =
     (if fails d (SysRemove p) then d
      else case lookup d p of
             None \<Rightarrow> d
           | Some (File _) \<Rightarrow> delete_node d p
           | Some Dir \<Rightarrow>
               if list_ex (\<lambda>(q, n). q \<noteq> [] \<and> butlast q = p) (nodes d) then d
               else delete_node d p)"

text \<open>\<open>os.WriteFile(path, data, 0644)\<close>: create or truncate, then write.\<close>

definition os_WriteFile :: "disk \<Rightarrow> path \<Rightarrow> bytes \<Rightarrow> error option \<times> disk" where
  "os_WriteFile d p bs =
     (case os_Create d p of
        Inl e \<Rightarrow> (Some e, d)
      | Inr d' \<Rightarrow> file_Write d' p bs)"

section \<open>Local on-disk cache (internal/cache/backends/local/local.go)\<close>

record PutRequest =
  put_ActionID :: bytes
  put_OutputID :: bytes
  BodySize :: "64 word"

record PutOpts =
  Req :: PutRequest
  Body :: reader
  OverrideTime :: "go_time option"
  put_IsInCompaction :: bool

record PutResponse =
  put_DiskPath :: string

record GetOpts =
  get_ActionID :: bytes
  get_IsInCompaction :: bool

record GetResponse =
  Miss :: bool
  resp_OutputID :: bytes
  resp_Size :: "64 word"
  resp_Time :: "go_time option"
  DiskPath :: string

definition miss_response :: GetResponse where
  "miss_response =
     \<lparr> Miss = True, resp_OutputID = [], resp_Size = 0, resp_Time = None, DiskPath = [] \<rparr>"

text \<open>
  What a call takes from its surroundings: the clock (\<open>time.Now\<close>) and the identifier
  that \<open>gonanoid.Must(8)\<close> draws.
\<close>

record env =
  now :: go_time
  uniqueId :: string

record LocalBackend =
  dir :: path
  closed :: bool
  fs :: disk

definition EnsureEmptyOutputFile :: "LocalBackend \<Rightarrow> (error + path) \<times> LocalBackend" where
  "EnsureEmptyOutputFile store =
     (let path = dir store @ [''_empty.output''] in
      case os_Stat (fs store) path of
        Inr (File []) \<Rightarrow> (Inr path, store)
      | _ \<Rightarrow>
          (case os_WriteFile (fs store) path [] of
             (Some e, d) \<Rightarrow> (Inl (Wrapf ''failed to prepare empty output file'' e), store\<lparr>fs := d\<rparr>)
           | (None, d) \<Rightarrow> (Inr path, store\<lparr>fs := d\<rparr>)))"

definition actionPath :: "LocalBackend \<Rightarrow> bytes \<Rightarrow> path result" where
  "actionPath store actionID =
     (case actionID of
        [] \<Rightarrow> Panic IndexOutOfRange
      | b # _ \<Rightarrow> Ok (dir store @ [hex_byte b, hex_bytes actionID @ ''.action'']))"

definition outputPath :: "LocalBackend \<Rightarrow> bytes \<Rightarrow> path result" where
  "outputPath store outputID =
     (case outputID of
        [] \<Rightarrow> Panic IndexOutOfRange
      | b # _ \<Rightarrow> Ok (dir store @ [hex_byte b, hex_bytes outputID @ ''.output'']))"

text \<open>The temporary name \<open>path + ".tmp." + uniqueId\<close>.\<close>

definition tmp_path :: "path \<Rightarrow> string \<Rightarrow> path" where
  "tmp_path p uid = butlast p @ [last p @ ''.tmp.'' @ uid]"


text \<open>
  \<open>LocalBackend_put\<close>, first half: the body goes to a temporary file beside the output path, its
  length is compared with \<open>BodySize\<close>, and the file is renamed into place; an entry without
  body uses the shared empty file.
\<close>

definition put_output ::
  "env \<Rightarrow> LocalBackend \<Rightarrow> PutOpts \<Rightarrow> path \<Rightarrow> (error + path) \<times> LocalBackend" where
  "put_output e store opts outputPath' =
     (if 0 < sint (BodySize (Req opts)) then
        (case os_MkdirAll (fs store) (butlast outputPath') of
           (Some err, d1) \<Rightarrow>
             (Inl (Wrapf ''failed to create output directory'' err), store\<lparr>fs := d1\<rparr>)
         | (None, d1) \<Rightarrow>
             (let outputPathTmp = tmp_path outputPath' (uniqueId e) in
              case os_Create d1 outputPathTmp of
                Inl err \<Rightarrow> (Inl (Wrapf ''failed to create output file'' err), store\<lparr>fs := d1\<rparr>)
              | Inr d2 \<Rightarrow>
                  (case io_Copy d2 outputPathTmp (Body opts) of
                     ((n, Some err), d3) \<Rightarrow>
                       (Inl (Wrapf ''failed to write output body'' err), store\<lparr>fs := d3\<rparr>)
                   | ((n, None), d3) \<Rightarrow>
                       if int n \<noteq> sint (BodySize (Req opts)) then
                         (Inl (Errorf ''body size mismatch''), store\<lparr>fs := d3\<rparr>)
                       else
                         (case os_Rename d3 outputPathTmp outputPath' of
                            (Some err, d4) \<Rightarrow>
                              (Inl (Wrapf ''failed to rename output file'' err), store\<lparr>fs := d4\<rparr>)
                          | (None, d4) \<Rightarrow> (Inr outputPath', store\<lparr>fs := d4\<rparr>)))))
      else
        (case EnsureEmptyOutputFile store of
           (Inl err, store') \<Rightarrow>
             (Inl (Wrapf ''failed to prepare empty output file'' err), store')
         | (Inr emptyPath, store') \<Rightarrow> (Inr emptyPath, store')))"

text \<open>\<open>LocalBackend_put\<close>, second half: the EntryMeta goes to a temporary file and is renamed into place.\<close>

definition put_action ::
  "env \<Rightarrow> LocalBackend \<Rightarrow> PutOpts \<Rightarrow> path \<Rightarrow> error option \<times> LocalBackend" where
  "put_action e store opts actionPath' =
     (case os_MkdirAll (fs store) (butlast actionPath') of
        (Some err, d1) \<Rightarrow>
          (Some (Wrapf ''failed to create action directory'' err), store\<lparr>fs := d1\<rparr>)
      | (None, d1) \<Rightarrow>
          (let actionPathTmp = tmp_path actionPath' (uniqueId e) in
           case os_Create d1 actionPathTmp of
             Inl err \<Rightarrow> (Some (Wrapf ''failed to create action file'' err), store\<lparr>fs := d1\<rparr>)
           | Inr d2 \<Rightarrow>
               (let meta = \<lparr> ActionID = put_ActionID (Req opts),
                             OutputID = put_OutputID (Req opts),
                             Size = BodySize (Req opts),
                             Time = (case OverrideTime opts of None \<Rightarrow> now e | Some t \<Rightarrow> t) \<rparr>
                in case file_Write d2 actionPathTmp (WriteTo_buf meta) of
                     (Some err, d3) \<Rightarrow>
                       (Some (Wrapf ''failed to write entry metadata'' err), store\<lparr>fs := d3\<rparr>)
                   | (None, d3) \<Rightarrow>
                       (case os_Rename d3 actionPathTmp actionPath' of
                          (Some err, d4) \<Rightarrow>
                            (Some (Wrapf ''failed to rename action file'' err), store\<lparr>fs := d4\<rparr>)
                        | (None, d4) \<Rightarrow> (None, store\<lparr>fs := d4\<rparr>)))))"

definition LocalBackend_put :: "env \<Rightarrow> LocalBackend \<Rightarrow> PutOpts \<Rightarrow> PutResponse result \<times> LocalBackend" where
  "LocalBackend_put e store opts =
     (case actionPath store (put_ActionID (Req opts)) of
        Panic p \<Rightarrow> (Panic p, store)
      | Err err \<Rightarrow> (Err err, store)
      | Ok actionPath' \<Rightarrow>
          (case outputPath store (put_OutputID (Req opts)) of
             Panic p \<Rightarrow> (Panic p, store)
           | Err err \<Rightarrow> (Err err, store)
           | Ok outputPath' \<Rightarrow>
               (case put_output e store opts outputPath' of
                  (Inl err, store1) \<Rightarrow> (Err err, store1)
                | (Inr outPath, store1) \<Rightarrow>
                    (case put_action e store1 opts actionPath' of
                       (Some err, store2) \<Rightarrow> (Err err, store2)
                     | (None, store2) \<Rightarrow> (Ok \<lparr> put_DiskPath = render outPath \<rparr>, store2)))))"

text \<open>
  The public \<open>LocalBackend_Put\<close> and \<open>LocalBackend_Get\<close> run the work in a single-flight group; for one caller at a
  time that is a plain call. Their log lines evaluate \<open>actionPath\<close> and \<open>outputPath\<close> of the
  request once more, which \<open>LocalBackend_put\<close> and \<open>LocalBackend_get\<close> have evaluated before without a panic.
\<close>

definition LocalBackend_Put :: "env \<Rightarrow> LocalBackend \<Rightarrow> PutOpts \<Rightarrow> PutResponse result \<times> LocalBackend" where
  "LocalBackend_Put e store opts =
     (if closed store then (Err (Errorf ''local cache store is closed''), store)
      else LocalBackend_put e store opts)"

text \<open>
  \<open>LocalBackend_get\<close>. On a hit \<open>markRecentlyUsed\<close> only moves modification times, which the disk of
  the model does not hold.
\<close>

definition get_output ::
  "LocalBackend \<Rightarrow> path \<Rightarrow> EntryMeta \<Rightarrow> path \<Rightarrow> (error + path) \<times> LocalBackend" where
  "get_output store actionPath' meta outputPath' =
     (if Size meta = 0 then
        (case EnsureEmptyOutputFile store of
           (Inl err, store') \<Rightarrow>
             (Inl (Wrapf ''failed to prepare empty output file'' err), store')
         | (Inr emptyPath, store') \<Rightarrow> (Inr emptyPath, store'))
      else
        (case os_Stat (fs store) outputPath' of
           Inl err \<Rightarrow>
             (Inl (Wrapf ''failed to stat output file'' err),
              store\<lparr>fs := os_Remove (fs store) actionPath'\<rparr>)
         | Inr Dir \<Rightarrow>
             (Inl (Errorf ''output path is a directory, expected a file''),
              store\<lparr>fs := os_Remove (os_Remove (fs store) actionPath') outputPath'\<rparr>)
         | Inr (File body) \<Rightarrow>
             if int (length body) \<noteq> sint (Size meta) then
               (Inl (Errorf ''output file size mismatch''),
                store\<lparr>fs := os_Remove (os_Remove (fs store) actionPath') outputPath'\<rparr>)
             else (Inr outputPath', store)))"

definition LocalBackend_get :: "LocalBackend \<Rightarrow> GetOpts \<Rightarrow> GetResponse result \<times> LocalBackend" where
  "LocalBackend_get store opts =
     (case actionPath store (get_ActionID opts) of
        Panic p \<Rightarrow> (Panic p, store)
      | Err err \<Rightarrow> (Err err, store)
      | Ok actionPath' \<Rightarrow>
          (case os_Open (fs store) actionPath' of
             Inl err \<Rightarrow>
               if err = ErrNotExist then (Ok miss_response, store) else (Err err, store)
           | Inr actionFile \<Rightarrow>
               (case ReadEntryMeta actionFile of
                  (Inl err, _) \<Rightarrow> (Err (Wrapf ''failed to read entry metadata'' err), store)
                | (Inr meta, _) \<Rightarrow>
                    if ActionID meta \<noteq> get_ActionID opts then
                      (Err (Errorf ''action ID mismatch''), store)
                    else
                      (case outputPath store (OutputID meta) of
                         Panic p \<Rightarrow> (Panic p, store)
                       | Err err \<Rightarrow> (Err err, store)
                       | Ok outputPath' \<Rightarrow>
                           (case get_output store actionPath' meta outputPath' of
                              (Inl err, store') \<Rightarrow> (Err err, store')
                            | (Inr outPath, store') \<Rightarrow>
                                (Ok \<lparr> Miss = False, resp_OutputID = OutputID meta,
                                      resp_Size = Size meta, resp_Time = Some (Time meta),
                                      DiskPath = render outPath \<rparr>,
                                 store'))))))"

definition LocalBackend_Get :: "LocalBackend \<Rightarrow> GetOpts \<Rightarrow> GetResponse result \<times> LocalBackend" where
  "LocalBackend_Get store opts =
     (if closed store then (Err (Errorf ''local cache store is closed''), store)
      else
        (case LocalBackend_get store opts of
           (Err err, store') \<Rightarrow> (Ok miss_response, store')
         | (res, store') \<Rightarrow> (res, store')))"

text \<open>\<open>LocalBackend_Open\<close>: the 256 shard directories and the shared empty file.\<close>

fun Open_dirs :: "disk \<Rightarrow> path \<Rightarrow> nat \<Rightarrow> error option \<times> disk" where
  "Open_dirs d base 0 = (None, d)"
| "Open_dirs d base (Suc k) =
     (case os_MkdirAll d (base @ [hex_byte (word_of_nat (255 - k))]) of
        (Some err, d') \<Rightarrow> (Some (Wrapf ''failed to create subdirectory'' err), d')
      | (None, d') \<Rightarrow> Open_dirs d' base k)"

definition LocalBackend_Open :: "LocalBackend \<Rightarrow> error option \<times> LocalBackend" where
  "LocalBackend_Open store =
     (case Open_dirs (fs store) (dir store) 256 of
        (Some err, d) \<Rightarrow> (Some err, store\<lparr>fs := d\<rparr>)
      | (None, d) \<Rightarrow>
          (case EnsureEmptyOutputFile (store\<lparr>fs := d\<rparr>) of
             (Inl err, store') \<Rightarrow> (Some (Wrapf ''failed to prepare empty output file'' err), store')
           | (Inr _, store') \<Rightarrow> (None, store')))"

definition LocalBackend_Close :: "LocalBackend \<Rightarrow> LocalBackend" where
  "LocalBackend_Close store = store\<lparr>closed := True\<rparr>"


section \<open>Properties of the file system model\<close>

lemma lookup_store_node [simp]:
  "lookup (store_node d p n) q = (if q = p then Some n else lookup d q)"
  by (simp add: lookup_def store_node_def update_conv')

lemma lookup_delete_node [simp]:
  "lookup (delete_node d p) q = (if q = p then None else lookup d q)"
  by (simp add: lookup_def delete_node_def delete_conv')

lemma fails_store_node [simp]: "fails (store_node d p n) = fails d"
  by (simp add: store_node_def)

lemma fails_delete_node [simp]: "fails (delete_node d p) = fails d"
  by (simp add: delete_node_def)

definition no_faults :: "syscall \<Rightarrow> bool" where
  "no_faults c = False"

definition example_store :: LocalBackend where
  "example_store =
     \<lparr> dir = [''w'', ''data''], closed = False, fs = \<lparr> nodes = [], fails = no_faults \<rparr> \<rparr>"

definition example_env :: env where
  "example_env = \<lparr> now = 1700000000000000000, uniqueId = ''Uakgb_J5'' \<rparr>"

lemmas fs_defs = os_Stat_def os_MkdirAll_def os_Create_def file_Write_def io_Copy_def
  os_Rename_def os_Open_def os_Remove_def os_WriteFile_def is_dir_def no_faults_def
  tmp_path_def

lemmas key_defs = hex_byte_def hex_bytes_def hex_digit_def

lemma put_example_mismatch:
  "LocalBackend_put example_env example_store
     \<lparr> Req = \<lparr> put_ActionID = [0x01], put_OutputID = [0x02], BodySize = 5 \<rparr>,
       Body = ([0x61, 0x62, 0x63], None), OverrideTime = None, put_IsInCompaction = False \<rparr>
   = (Err (Errorf ''body size mismatch''),
      example_store\<lparr>fs := \<lparr> nodes =
         [([''w''], Dir), ([''w'', ''data''], Dir), ([''w'', ''data'', ''02''], Dir),
          ([''w'', ''data'', ''02'', ''02.output.tmp.Uakgb_J5''], File [0x61, 0x62, 0x63])],
         fails = no_faults \<rparr>\<rparr>)"
  by (simp add: LocalBackend_put_def put_output_def put_action_def actionPath_def outputPath_def
      example_store_def example_env_def fs_defs key_defs lookup_def store_node_def)

lemma put_example_ok:
  "LocalBackend_put example_env example_store
     \<lparr> Req = \<lparr> put_ActionID = [0x01], put_OutputID = [0x02], BodySize = 3 \<rparr>,
       Body = ([0x61, 0x62, 0x63], None), OverrideTime = None, put_IsInCompaction = False \<rparr>
   = (Ok \<lparr> put_DiskPath = ''w/data/02/02.output'' \<rparr>,
      example_store\<lparr>fs := \<lparr> nodes =
         [([''w''], Dir), ([''w'', ''data''], Dir), ([''w'', ''data'', ''02''], Dir),
          ([''w'', ''data'', ''02'', ''02.output''], File [0x61, 0x62, 0x63]),
          ([''w'', ''data'', ''01''], Dir),
          ([''w'', ''data'', ''01'', ''01.action''],
           File (WriteTo_buf \<lparr> ActionID = [0x01], OutputID = [0x02], Size = 3,
                               Time = 1700000000000000000 \<rparr>))],
         fails = no_faults \<rparr>\<rparr>)"
  by (simp add: LocalBackend_put_def put_output_def put_action_def actionPath_def outputPath_def
      example_store_def example_env_def fs_defs key_defs lookup_def store_node_def
      delete_node_def render_def)


lemma hex_digit_not_dot: "n < 16 \<Longrightarrow> hex_digit n \<noteq> CHR ''.''"
proof -
  assume "n < 16"
  then have "hex_digit n \<in> set ''0123456789abcdef''"
    unfolding hex_digit_def by (intro nth_mem) simp
  then show ?thesis by auto
qed

lemma dot_notin_hex_byte: "CHR ''.'' \<notin> set (hex_byte b)"
proof -
  have "unat b div 16 < 16"
    using unsigned_less [of b, where 'a = nat] by (simp add: less_mult_imp_div_less)
  then show ?thesis
    using hex_digit_not_dot [of "unat b div 16"] hex_digit_not_dot [of "unat b mod 16"]
    by (auto simp: hex_byte_def)
qed

lemma dot_notin_hex_bytes: "CHR ''.'' \<notin> set (hex_bytes bs)"
  by (induction bs) (auto simp: hex_bytes_def dot_notin_hex_byte)

lemma append_dot_eq:
  "c \<notin> set xs \<Longrightarrow> c \<notin> set ys \<Longrightarrow> xs @ c # r1 = ys @ c # r2 \<Longrightarrow> xs = ys \<and> r1 = r2"
proof (induction xs arbitrary: ys)
  case Nil
  then show ?case by (cases ys) auto
next
  case (Cons x xs)
  then show ?case by (cases ys) auto
qed

lemma action_name_neq_output_name:
  "hex_bytes a @ ''.action'' @ r \<noteq> hex_bytes b @ ''.output''"
proof
  assume "hex_bytes a @ ''.action'' @ r = hex_bytes b @ ''.output''"
  then have "hex_bytes a @ CHR ''.'' # (''action'' @ r) = hex_bytes b @ CHR ''.'' # ''output''"
    by simp
  then have "''action'' @ r = ''output''"
    using append_dot_eq [OF dot_notin_hex_bytes dot_notin_hex_bytes] by blast
  then show False by simp
qed

lemma output_tmp_name_neq:
  "hex_bytes b @ ''.output'' @ ''.tmp.'' @ uid \<noteq> hex_bytes a @ ''.action''"
  "hex_bytes b @ ''.output'' @ ''.tmp.'' @ uid \<noteq> hex_bytes b' @ ''.output''"
proof -
  show "hex_bytes b @ ''.output'' @ ''.tmp.'' @ uid \<noteq> hex_bytes a @ ''.action''"
  proof
    assume "hex_bytes b @ ''.output'' @ ''.tmp.'' @ uid = hex_bytes a @ ''.action''"
    then have "hex_bytes b @ CHR ''.'' # (''output.tmp.'' @ uid) = hex_bytes a @ CHR ''.'' # ''action''"
      by simp
    then have "''output.tmp.'' @ uid = ''action''"
      using append_dot_eq [OF dot_notin_hex_bytes dot_notin_hex_bytes] by blast
    then show False by simp
  qed
  show "hex_bytes b @ ''.output'' @ ''.tmp.'' @ uid \<noteq> hex_bytes b' @ ''.output''"
  proof
    assume "hex_bytes b @ ''.output'' @ ''.tmp.'' @ uid = hex_bytes b' @ ''.output''"
    then have "hex_bytes b @ CHR ''.'' # (''output.tmp.'' @ uid) = hex_bytes b' @ CHR ''.'' # ''output''"
      by simp
    then have "''output.tmp.'' @ uid = ''output''"
      using append_dot_eq [OF dot_notin_hex_bytes dot_notin_hex_bytes] by blast
    then show False by simp
  qed
qed

lemma MkdirAll_nodes_keeps:
  "MkdirAll_nodes d rp = Some d' \<Longrightarrow>
   fails d' = fails d \<and> (\<forall>q n. lookup d q = Some n \<longrightarrow> lookup d' q = Some n)"
proof (induction rp arbitrary: d')
  case Nil
  then show ?case by simp
next
  case (Cons c rparent)
  show ?case
  proof (cases "lookup d (rev (c # rparent))")
    case None
    then obtain d1 where d1: "MkdirAll_nodes d rparent = Some d1"
      and d': "d' = store_node d1 (rev (c # rparent)) Dir"
      using Cons.prems by (auto split: option.splits)
    from Cons.IH [OF d1] have "fails d1 = fails d"
      and keep: "\<And>q n. lookup d q = Some n \<Longrightarrow> lookup d1 q = Some n" by auto
    then show ?thesis using d' None by auto
  next
    case (Some n)
    then show ?thesis using Cons.prems by (cases n) auto
  qed
qed

lemma MkdirAll_nodes_only_dirs:
  "MkdirAll_nodes d rp = Some d' \<Longrightarrow> lookup d' q = Some (File x) \<Longrightarrow> lookup d q = Some (File x)"
proof (induction rp arbitrary: d')
  case Nil
  then show ?case by simp
next
  case (Cons c rparent)
  show ?case
  proof (cases "lookup d (rev (c # rparent))")
    case None
    then obtain d1 where d1: "MkdirAll_nodes d rparent = Some d1"
      and d': "d' = store_node d1 (rev (c # rparent)) Dir"
      using Cons.prems by (auto split: option.splits)
    have "lookup d1 q = Some (File x)"
      using Cons.prems(2) d' by (auto split: if_splits)
    then show ?thesis using Cons.IH [OF d1] by simp
  next
    case (Some n)
    then show ?thesis using Cons.prems by (cases n) auto
  qed
qed

lemma os_MkdirAll_keeps:
  "os_MkdirAll d p = (None, d') \<Longrightarrow>
   fails d' = fails d \<and> (\<forall>q n. lookup d q = Some n \<longrightarrow> lookup d' q = Some n)"
  using MkdirAll_nodes_keeps [of d "rev p" d']
  by (auto simp: os_MkdirAll_def split: if_splits option.splits)

lemma os_MkdirAll_files:
  "os_MkdirAll d p = (r, d') \<Longrightarrow> lookup d' q = Some (File x) \<Longrightarrow> lookup d q = Some (File x)"
  using MkdirAll_nodes_only_dirs [of d "rev p" d' q x]
  by (auto simp: os_MkdirAll_def split: if_splits option.splits)

lemma tmp_path_neq: "p \<noteq> [] \<Longrightarrow> tmp_path p uid \<noteq> p"
proof
  assume "p \<noteq> []" and "tmp_path p uid = p"
  then have "last (tmp_path p uid) = last p" by simp
  then show False by (simp add: tmp_path_def)
qed


section \<open>Properties of the local cache\<close>

lemma put_output_Inr:
  assumes "put_output e store opts p = (Inr out, store1)"
    and "0 < sint (BodySize (Req opts))" and "p \<noteq> []"
  shows "out = p \<and> dir store1 = dir store \<and>
         lookup (fs store1) p = Some (File (fst (Body opts))) \<and>
         int (length (fst (Body opts))) = sint (BodySize (Req opts))"
proof -
  obtain data fail where body: "Body opts = (data, fail)" by (cases "Body opts")
  have ne: "tmp_path p (uniqueId e) \<noteq> p" using assms(3) by (rule tmp_path_neq)
  show ?thesis
    using assms(1,2) ne body
    by (auto simp: put_output_def Let_def os_Create_def io_Copy_def file_Write_def
        os_Rename_def split: prod.splits option.splits sum.splits if_splits)
qed

lemma put_action_None:
  assumes "put_action e store1 opts p = (None, store2)" and "p \<noteq> []"
  shows "dir store2 = dir store1 \<and>
         lookup (fs store2) p =
           Some (File (WriteTo_buf \<lparr> ActionID = put_ActionID (Req opts),
                   OutputID = put_OutputID (Req opts), Size = BodySize (Req opts),
                   Time = (case OverrideTime opts of None \<Rightarrow> now e | Some t \<Rightarrow> t) \<rparr>)) \<and>
         (\<forall>q n. lookup (fs store1) q = Some n \<longrightarrow> q \<noteq> p \<longrightarrow> q \<noteq> tmp_path p (uniqueId e) \<longrightarrow>
                lookup (fs store2) q = Some n)"
proof -
  obtain d1 where mk: "os_MkdirAll (fs store1) (butlast p) = (None, d1)"
    using assms(1) by (auto simp: put_action_def split: prod.splits option.splits)
  have keep: "\<And>q n. lookup (fs store1) q = Some n \<Longrightarrow> lookup d1 q = Some n"
    using os_MkdirAll_keeps [OF mk] by blast
  have ne: "tmp_path p (uniqueId e) \<noteq> p" using assms(2) by (rule tmp_path_neq)
  show ?thesis
    using assms(1) mk ne keep
    by (auto simp: put_action_def Let_def os_Create_def file_Write_def
        os_Rename_def split: prod.splits option.splits sum.splits if_splits)
qed

text \<open>
  Claim C8, as amended. For every successful local-cache put with \<open>BodySize > 0\<close>, the
  EntryMeta is stored in the file \<open>data/XX/HEX(ActionID).action\<close>, where \<open>XX\<close> is the first
  byte of the ActionID, and the body in the file \<open>data/YY/HEX(OutputID).output\<close>, where
  \<open>YY\<close> is the first byte of the OutputID; the returned disk path is the latter. The
  action file is sharded and named by the ActionID, the output file by the OutputID.
\<close>

theorem put_layout:
  assumes "LocalBackend_put e store opts = (Ok resp, store')"
    and "0 < sint (BodySize (Req opts))"
  shows "put_ActionID (Req opts) \<noteq> [] \<and> put_OutputID (Req opts) \<noteq> [] \<and>
    put_DiskPath resp =
      render (dir store @ [hex_byte (hd (put_OutputID (Req opts))),
                           hex_bytes (put_OutputID (Req opts)) @ ''.output'']) \<and>
    lookup (fs store')
      (dir store @ [hex_byte (hd (put_ActionID (Req opts))),
                    hex_bytes (put_ActionID (Req opts)) @ ''.action'']) =
      Some (File (WriteTo_buf \<lparr> ActionID = put_ActionID (Req opts),
                   OutputID = put_OutputID (Req opts), Size = BodySize (Req opts),
                   Time = (case OverrideTime opts of None \<Rightarrow> now e | Some t \<Rightarrow> t) \<rparr>)) \<and>
    lookup (fs store')
      (dir store @ [hex_byte (hd (put_OutputID (Req opts))),
                    hex_bytes (put_OutputID (Req opts)) @ ''.output'']) =
      Some (File (fst (Body opts)))"
proof -
  let ?aid = "put_ActionID (Req opts)" and ?oid = "put_OutputID (Req opts)"
  let ?ap = "dir store @ [hex_byte (hd ?aid), hex_bytes ?aid @ ''.action'']"
  let ?op = "dir store @ [hex_byte (hd ?oid), hex_bytes ?oid @ ''.output'']"
  have a: "?aid \<noteq> []" and ap: "actionPath store ?aid = Ok ?ap"
    using assms(1) by (auto simp: LocalBackend_put_def actionPath_def split: list.splits)
  have o: "?oid \<noteq> []" and op: "outputPath store ?oid = Ok ?op"
    using assms(1) ap by (auto simp: LocalBackend_put_def outputPath_def split: list.splits)
  obtain out store1 where po: "put_output e store opts ?op = (Inr out, store1)"
    and pa: "put_action e store1 opts ?ap = (None, store')"
    and resp: "resp = \<lparr> put_DiskPath = render out \<rparr>"
    using assms(1) ap op
    by (auto simp: LocalBackend_put_def split: prod.splits sum.splits option.splits)
  from put_output_Inr [OF po assms(2)]
  have out: "out = ?op" and l1: "lookup (fs store1) ?op = Some (File (fst (Body opts)))"
    by simp_all
  have ne1: "?op \<noteq> ?ap"
    using action_name_neq_output_name [of ?aid "[]" ?oid] by auto
  have ne2: "?op \<noteq> tmp_path ?ap (uniqueId e)"
    using action_name_neq_output_name [of ?aid "''.tmp.'' @ uniqueId e" ?oid]
    by (auto simp: tmp_path_def)
  from put_action_None [OF pa]
  have l2: "lookup (fs store') ?ap =
           Some (File (WriteTo_buf \<lparr> ActionID = ?aid, OutputID = ?oid, Size = BodySize (Req opts),
                   Time = (case OverrideTime opts of None \<Rightarrow> now e | Some t \<Rightarrow> t) \<rparr>))"
    and keep: "\<And>q n. lookup (fs store1) q = Some n \<Longrightarrow> q \<noteq> ?ap \<Longrightarrow>
                q \<noteq> tmp_path ?ap (uniqueId e) \<Longrightarrow> lookup (fs store') q = Some n"
    by auto
  have "lookup (fs store') ?op = Some (File (fst (Body opts)))"
    using keep [OF l1 ne1 ne2] .
  then show ?thesis using a o resp out l2 by simp
qed

theorem put_layout_witness:
  "0 < sint (3 :: 64 word) \<and>
   lookup (fs (snd (LocalBackend_put example_env example_store
     \<lparr> Req = \<lparr> put_ActionID = [0x01], put_OutputID = [0x02], BodySize = 3 \<rparr>,
       Body = ([0x61, 0x62, 0x63], None), OverrideTime = None, put_IsInCompaction = False \<rparr>)))
     [''w'', ''data'', ''02'', ''02.output''] = Some (File [0x61, 0x62, 0x63]) \<and>
   lookup (fs (snd (LocalBackend_put example_env example_store
     \<lparr> Req = \<lparr> put_ActionID = [0x01], put_OutputID = [0x02], BodySize = 3 \<rparr>,
       Body = ([0x61, 0x62, 0x63], None), OverrideTime = None, put_IsInCompaction = False \<rparr>)))
     [''w'', ''data'', ''01'', ''01.action''] =
     Some (File (WriteTo_buf \<lparr> ActionID = [0x01], OutputID = [0x02], Size = 3,
                               Time = 1700000000000000000 \<rparr>))"
proof -
  have "lookup (fs (example_store\<lparr>fs := \<lparr> nodes =
         [([''w''], Dir), ([''w'', ''data''], Dir), ([''w'', ''data'', ''02''], Dir),
          ([''w'', ''data'', ''02'', ''02.output''], File [0x61, 0x62, 0x63]),
          ([''w'', ''data'', ''01''], Dir),
          ([''w'', ''data'', ''01'', ''01.action''],
           File (WriteTo_buf \<lparr> ActionID = [0x01], OutputID = [0x02], Size = 3,
                               Time = 1700000000000000000 \<rparr>))],
         fails = no_faults \<rparr>\<rparr>))
      [''w'', ''data'', ''02'', ''02.output''] = Some (File [0x61, 0x62, 0x63]) \<and>
    lookup (fs (example_store\<lparr>fs := \<lparr> nodes =
         [([''w''], Dir), ([''w'', ''data''], Dir), ([''w'', ''data'', ''02''], Dir),
          ([''w'', ''data'', ''02'', ''02.output''], File [0x61, 0x62, 0x63]),
          ([''w'', ''data'', ''01''], Dir),
          ([''w'', ''data'', ''01'', ''01.action''],
           File (WriteTo_buf \<lparr> ActionID = [0x01], OutputID = [0x02], Size = 3,
                               Time = 1700000000000000000 \<rparr>))],
         fails = no_faults \<rparr>\<rparr>))
      [''w'', ''data'', ''01'', ''01.action''] =
      Some (File (WriteTo_buf \<lparr> ActionID = [0x01], OutputID = [0x02], Size = 3,
                               Time = 1700000000000000000 \<rparr>))"
    using put_layout [OF put_example_ok]
    by (simp add: example_store_def example_env_def key_defs)
  then show ?thesis
    by (simp only: put_example_ok) simp
qed

text \<open>
  The claim as stated (one shard directory and one stem for both files) fails: for the
  ActionID \<open>01\<close> and the OutputID \<open>02\<close> the EntryMeta is in \<open>data/01/01.action\<close> and the
  body in \<open>data/02/02.output\<close>.
\<close>

theorem put_layout_counterexample:
  "fst (LocalBackend_put example_env example_store
     \<lparr> Req = \<lparr> put_ActionID = [0x01], put_OutputID = [0x02], BodySize = 3 \<rparr>,
       Body = ([0x61, 0x62, 0x63], None), OverrideTime = None, put_IsInCompaction = False \<rparr>)
     = Ok \<lparr> put_DiskPath = ''w/data/02/02.output'' \<rparr> \<and>
   map fst (nodes (fs (snd (LocalBackend_put example_env example_store
     \<lparr> Req = \<lparr> put_ActionID = [0x01], put_OutputID = [0x02], BodySize = 3 \<rparr>,
       Body = ([0x61, 0x62, 0x63], None), OverrideTime = None, put_IsInCompaction = False \<rparr>))))
     = [[''w''], [''w'', ''data''], [''w'', ''data'', ''02''],
        [''w'', ''data'', ''02'', ''02.output''], [''w'', ''data'', ''01''],
        [''w'', ''data'', ''01'', ''01.action'']]"
  by (simp only: put_example_ok) (simp add: example_store_def)

text \<open>
  Claim C4 at a concrete input: a put that announces five bytes and whose body yields
  three fails with the size mismatch and touches neither the action path nor the output
  path, but the temporary file with the three bytes stays on the disk.
\<close>

theorem put_size_mismatch_keeps_tmp:
  "LocalBackend_put example_env example_store
     \<lparr> Req = \<lparr> put_ActionID = [0x01], put_OutputID = [0x02], BodySize = 5 \<rparr>,
       Body = ([0x61, 0x62, 0x63], None), OverrideTime = None, put_IsInCompaction = False \<rparr>
   = (Err (Errorf ''body size mismatch''),
      example_store\<lparr>fs := \<lparr> nodes =
         [([''w''], Dir), ([''w'', ''data''], Dir), ([''w'', ''data'', ''02''], Dir),
          ([''w'', ''data'', ''02'', ''02.output.tmp.Uakgb_J5''], File [0x61, 0x62, 0x63])],
         fails = no_faults \<rparr>\<rparr>)"
  by (rule put_example_mismatch)

section \<open>Bundle format (internal/cache/backends/blob/ar.go)\<close>

text \<open>
  A zip archive is seen through \<open>archive/zip\<close>: the list of its files, each with its
  name, its comment as \<open>json.Unmarshal\<close> reads it into an EntryMeta (\<open>None\<close> when that
  fails) and its uncompressed data. What a file or a stream holds is such an archive, or
  something that \<open>zip.OpenReader\<close> rejects.
\<close>

record zip_file =
  zf_Name :: string
  zf_Comment :: "EntryMeta option"
  zf_Data :: bytes

datatype content = NotZip | Zip "zip_file list"

text \<open>
  An \<open>ArEntry\<close> embeds the EntryMeta and points to the \<open>zip.File\<close>, which reads through
  the file handle of the reader that made it: \<open>entry_reader\<close> is the address of that
  reader, \<open>entry_data\<close> what the \<open>zip.File\<close> holds. An \<open>ArReader\<close> is an object on the
  heap, since \<open>Close\<close> changes it under everyone who holds it; \<open>z_closed\<close> says that its
  zip handle is closed.
\<close>

record ArEntry = EntryMeta +
  entry_reader :: nat
  entry_data :: bytes

record ArReader =
  z_closed :: bool
  files :: "(string \<times> ArEntry) list"

fun NewArReader_files ::
  "nat \<Rightarrow> zip_file list \<Rightarrow> (string \<times> ArEntry) list \<Rightarrow> (string \<times> ArEntry) list option" where
  "NewArReader_files ptr [] acc = Some acc"
| "NewArReader_files ptr (f # rest) acc =
     (case zf_Comment f of
        None \<Rightarrow> None
      | Some meta \<Rightarrow>
          NewArReader_files ptr rest
            (AList.update (zf_Name f)
               \<lparr> ActionID = ActionID meta, OutputID = OutputID meta, Size = Size meta,
                 Time = Time meta, entry_reader = ptr, entry_data = zf_Data f \<rparr> acc))"

definition ArReader_Get :: "ArReader \<Rightarrow> string \<Rightarrow> ArEntry option" where
  "ArReader_Get r name = map_of (files r) name"

definition ArReader_List :: "ArReader \<Rightarrow> string list" where
  "ArReader_List r = map fst (files r)"

definition ArReader_Close :: "ArReader \<Rightarrow> ArReader" where
  "ArReader_Close r = r\<lparr> files := [], z_closed := True \<rparr>"

section \<open>Bundle local store (internal/cache/backends/blob/arlocalstore.go)\<close>

text \<open>
  The store maps a keyspace to the address of its current reader. The state also holds
  the heap of readers, the bundle files of the work directory, and the addresses that
  consumers of \<open>Get\<close> still hold: the finalizer that \<open>set\<close> puts on every reader closes
  it only once neither the store nor a consumer refers to it. \<open>ar_io\<close> says which system
  calls of one operation fail.
\<close>

record ArLocalStore =
  workDir :: string
  readers :: "(string \<times> nat) list"
  heap :: "ArReader list"
  bundle_files :: "(string \<times> content) list"
  held :: "nat list"

record ar_io =
  stat_fails :: bool
  create_fails :: bool
  copy_fails :: bool
  open_fails :: bool
  rename_fails :: bool

definition NewArLocalStore :: "string \<Rightarrow> (string \<times> content) list \<Rightarrow> ArLocalStore" where
  "NewArLocalStore wd fls =
     \<lparr> workDir = wd, readers = [], heap = [], bundle_files = fls, held = [] \<rparr>"

definition NewArReader :: "ArLocalStore \<Rightarrow> ar_io \<Rightarrow> string \<Rightarrow> (error + nat) \<times> ArLocalStore" where
  "NewArReader s io path =
     (if open_fails io then (Inl ErrIO, s)
      else case map_of (bundle_files s) path of
             None \<Rightarrow> (Inl ErrNotExist, s)
           | Some NotZip \<Rightarrow> (Inl (Errorf ''zip: not a valid zip file''), s)
           | Some (Zip zfs) \<Rightarrow>
               (case NewArReader_files (length (heap s)) zfs [] of
                  None \<Rightarrow> (Inl (Errorf ''failed to unmarshal entry meta from file comment''), s)
                | Some fm \<Rightarrow>
                    (Inr (length (heap s)),
                     s\<lparr> heap := heap s @ [\<lparr> z_closed = False, files = fm \<rparr>] \<rparr>)))"

definition ArLocalStore_set :: "ArLocalStore \<Rightarrow> string \<Rightarrow> nat \<Rightarrow> ArLocalStore" where
  "ArLocalStore_set s keyspace arReader = s\<lparr> readers := AList.update keyspace arReader (readers s) \<rparr>"

definition ArLocalStore_LoadLocal ::
  "ArLocalStore \<Rightarrow> ar_io \<Rightarrow> string \<Rightarrow> error option \<times> ArLocalStore" where
  "ArLocalStore_LoadLocal s io keyspace =
     (let filePath = ArchiveFilePath (workDir s) keyspace in
      if stat_fails io then (Some ErrIO, s)
      else if map_of (bundle_files s) filePath = None then (None, s)
      else
        (case NewArReader s io filePath of
           (Inl err, s') \<Rightarrow> (Some (Wrapf ''failed to read as BlobArchive'' err), s')
         | (Inr arReader, s') \<Rightarrow> (None, ArLocalStore_set s' keyspace arReader)))"

definition close_reader :: "ArLocalStore \<Rightarrow> nat \<Rightarrow> ArLocalStore" where
  "close_reader s ptr =
     (if ptr < length (heap s) then s\<lparr> heap := (heap s)[ptr := ArReader_Close (heap s ! ptr)] \<rparr>
      else s)"

definition remove_file :: "ArLocalStore \<Rightarrow> string \<Rightarrow> ArLocalStore" where
  "remove_file s path = s\<lparr> bundle_files := AList.delete path (bundle_files s) \<rparr>"

text \<open>
  \<open>Put\<close>: the stream (what it holds, and the error it ends with, if any) goes to a
  temporary file, which is opened as a reader and then renamed over the bundle file.
\<close>

definition ArLocalStore_Put ::
  "ArLocalStore \<Rightarrow> ar_io \<Rightarrow> string \<Rightarrow> string \<Rightarrow> content \<times> error option \<Rightarrow>
   error option \<times> ArLocalStore" where
  "ArLocalStore_Put s io uid keyspace r =
     (let newFilePath = ArchiveFilePath (workDir s) keyspace;
          newFilePathTmp = newFilePath @ ''.tmp.'' @ uid
      in
      if create_fails io then (Some (Wrapf ''failed to create file'' ErrIO), s)
      else if copy_fails io then
        (Some (Wrapf ''failed to write to file'' ErrIO), remove_file s newFilePathTmp)
      else
        (case snd r of
           Some err \<Rightarrow> (Some (Wrapf ''failed to write to file'' err), remove_file s newFilePathTmp)
         | None \<Rightarrow>
             (let s1 = s\<lparr> bundle_files := AList.update newFilePathTmp (fst r) (bundle_files s) \<rparr> in
              case NewArReader s1 io newFilePathTmp of
                (Inl err, s2) \<Rightarrow>
                  (Some (Wrapf ''failed to read as BlobArchive'' err), remove_file s2 newFilePathTmp)
              | (Inr arReader, s2) \<Rightarrow>
                  if rename_fails io then
                    (Some (Wrapf ''failed to rename file'' ErrIO),
                     remove_file (close_reader s2 arReader) newFilePathTmp)
                  else
                    (None,
                     ArLocalStore_set
                       (s2\<lparr> bundle_files :=
                             AList.update newFilePath (fst r)
                               (AList.delete newFilePathTmp (bundle_files s2)) \<rparr>)
                       keyspace arReader))))"

definition ArLocalStore_Get :: "ArLocalStore \<Rightarrow> string \<Rightarrow> nat option" where
  "ArLocalStore_Get s keyspace = map_of (readers s) keyspace"


text \<open>
  What happens to a store over time: its own operations, consumers that take a reader
  with \<open>Get\<close> and keep it or drop it again, and the runtime running the finalizer of a
  reader that neither the store nor a consumer refers to.
\<close>

datatype ar_op =
    OpLoadLocal ar_io string
  | OpPut ar_io string string "content \<times> error option"
  | OpGet string
  | OpRelease nat
  | OpFinalize nat

fun apply_op :: "ArLocalStore \<Rightarrow> ar_op \<Rightarrow> ArLocalStore" where
  "apply_op s (OpLoadLocal io keyspace) = snd (ArLocalStore_LoadLocal s io keyspace)"
| "apply_op s (OpPut io uid keyspace r) = snd (ArLocalStore_Put s io uid keyspace r)"
| "apply_op s (OpGet keyspace) =
     (case ArLocalStore_Get s keyspace of
        None \<Rightarrow> s
      | Some p \<Rightarrow> s\<lparr> held := p # held s \<rparr>)"
| "apply_op s (OpRelease p) = s\<lparr> held := remove1 p (held s) \<rparr>"
| "apply_op s (OpFinalize p) =
     (if p \<in> set (map snd (readers s)) \<or> p \<in> set (held s) then s else close_reader s p)"

definition run_ops :: "ArLocalStore \<Rightarrow> ar_op list \<Rightarrow> ArLocalStore" where
  "run_ops s ops = foldl apply_op s ops"

definition reader_open :: "ArLocalStore \<Rightarrow> nat \<Rightarrow> bool" where
  "reader_open s p = (p < length (heap s) \<and> \<not> z_closed (heap s ! p))"

definition store_inv :: "ArLocalStore \<Rightarrow> bool" where
  "store_inv s =
     (list_all (reader_open s) (map snd (readers s)) \<and> list_all (reader_open s) (held s))"

section \<open>Properties of the bundle local store\<close>

lemma NewArReader_effect:
  "NewArReader s io path = (res, s') \<Longrightarrow>
   held s' = held s \<and> readers s' = readers s \<and> bundle_files s' = bundle_files s \<and>
   workDir s' = workDir s \<and>
   (case res of
      Inl e \<Rightarrow> s' = s
    | Inr ptr \<Rightarrow> ptr = length (heap s) \<and> (\<exists>fm. heap s' = heap s @ [\<lparr> z_closed = False, files = fm \<rparr>]))"
  by (auto simp: NewArReader_def split: if_splits option.splits content.splits)

lemma snd_set_update:
  "set (map snd (AList.update k v al)) \<subseteq> insert v (set (map snd al))"
  by (induction al) auto

text \<open>
  The effect of an operation on the heap and on the map: nothing, a new reader that is
  closed at once and not installed, or a new open reader installed for the keyspace.
\<close>

definition op_effect :: "ArLocalStore \<Rightarrow> ArLocalStore \<Rightarrow> bool" where
  "op_effect s s' =
     (held s' = held s \<and>
      ((heap s' = heap s \<and> readers s' = readers s) \<or>
       (\<exists>rd. heap s' = heap s @ [rd] \<and> readers s' = readers s) \<or>
       (\<exists>fm k. heap s' = heap s @ [\<lparr> z_closed = False, files = fm \<rparr>] \<and>
               readers s' = AList.update k (length (heap s)) (readers s))))"

lemma LoadLocal_effect: "op_effect s (snd (ArLocalStore_LoadLocal s io keyspace))"
proof -
  obtain res s1 where n: "NewArReader s io (ArchiveFilePath (workDir s) keyspace) = (res, s1)"
    by (cases "NewArReader s io (ArchiveFilePath (workDir s) keyspace)")
  show ?thesis
    using NewArReader_effect [OF n] n
    by (cases res)
       (auto simp: ArLocalStore_LoadLocal_def Let_def op_effect_def ArLocalStore_set_def)
qed

lemma Put_effect: "op_effect s (snd (ArLocalStore_Put s io uid keyspace r))"
proof -
  let ?tmp = "ArchiveFilePath (workDir s) keyspace @ ''.tmp.'' @ uid"
  let ?s1 = "s\<lparr> bundle_files := AList.update ?tmp (fst r) (bundle_files s) \<rparr>"
  obtain res s2 where n: "NewArReader ?s1 io ?tmp = (res, s2)"
    by (cases "NewArReader ?s1 io ?tmp")
  have e: "held s2 = held s \<and> readers s2 = readers s \<and>
   (case res of
      Inl e \<Rightarrow> s2 = ?s1
    | Inr ptr \<Rightarrow> ptr = length (heap s) \<and> (\<exists>fm. heap s2 = heap s @ [\<lparr> z_closed = False, files = fm \<rparr>]))"
    using NewArReader_effect [OF n] by (auto split: sum.splits)
  show ?thesis
  proof (cases res)
    case (Inl err)
    then show ?thesis
      using e n
      by (auto simp: ArLocalStore_Put_def Let_def op_effect_def remove_file_def
          split: option.splits)
  next
    case (Inr ptr)
    then obtain fm where ptr: "ptr = length (heap s)"
      and h: "heap s2 = heap s @ [\<lparr> z_closed = False, files = fm \<rparr>]"
      using e by auto
    have c: "heap (close_reader s2 ptr) = heap s @ [ArReader_Close \<lparr> z_closed = False, files = fm \<rparr>]"
      using ptr h by (simp add: close_reader_def)
    have c2: "held (close_reader s2 ptr) = held s2" "readers (close_reader s2 ptr) = readers s2"
      by (simp_all add: close_reader_def)
    show ?thesis
      using e n Inr ptr h c c2
      by (auto simp: ArLocalStore_Put_def Let_def op_effect_def remove_file_def
          ArLocalStore_set_def split: option.splits)
  qed
qed

lemma reader_open_effect:
  assumes "op_effect s s'" and "reader_open s p"
  shows "reader_open s' p \<and> heap s' ! p = heap s ! p"
  using assms by (auto simp: op_effect_def reader_open_def nth_append)

lemma store_inv_effect:
  assumes "op_effect s s'" and "store_inv s"
  shows "store_inv s'"
proof -
  have keep: "\<And>p. reader_open s p \<Longrightarrow> reader_open s' p"
    using reader_open_effect [OF assms(1)] by blast
  have h: "list_all (reader_open s') (held s')"
    using assms keep by (auto simp: store_inv_def op_effect_def list_all_iff)
  have "list_all (reader_open s') (map snd (readers s'))"
  proof -
    consider (same) "readers s' = readers s"
      | (new) fm k where "heap s' = heap s @ [\<lparr> z_closed = False, files = fm \<rparr>]"
          "readers s' = AList.update k (length (heap s)) (readers s)"
      using assms(1) by (auto simp: op_effect_def)
    then show ?thesis
    proof cases
      case same
      then show ?thesis using assms(2) keep by (auto simp: store_inv_def list_all_iff)
    next
      case new
      have fresh: "reader_open s' (length (heap s))"
        using new(1) by (simp add: reader_open_def)
      have sub: "set (map snd (readers s')) \<subseteq> insert (length (heap s)) (set (map snd (readers s)))"
        unfolding new(2) by (rule snd_set_update)
      have old: "\<And>x. x \<in> set (map snd (readers s)) \<Longrightarrow> reader_open s' x"
        using assms(2) keep unfolding store_inv_def list_all_iff by blast
      have "\<And>x. x \<in> set (map snd (readers s')) \<Longrightarrow> reader_open s' x"
      proof -
        fix x assume "x \<in> set (map snd (readers s'))"
        then have "x = length (heap s) \<or> x \<in> set (map snd (readers s))"
          using sub by blast
        then show "reader_open s' x" using fresh old by blast
      qed
      then show ?thesis unfolding list_all_iff by blast
    qed
  qed
  with h show ?thesis by (simp add: store_inv_def)
qed

lemma store_inv_reader_open:
  "store_inv s \<Longrightarrow> p \<in> set (map snd (readers s)) \<or> p \<in> set (held s) \<Longrightarrow> reader_open s p"
  by (auto simp: store_inv_def list_all_iff)

lemma apply_op_step:
  assumes inv: "store_inv s" and p: "p \<in> set (held s)" and op: "op \<noteq> OpRelease p"
  shows "store_inv (apply_op s op) \<and> p \<in> set (held (apply_op s op)) \<and>
         heap (apply_op s op) ! p = heap s ! p"
proof -
  have po: "reader_open s p" using inv p by (auto simp: store_inv_def list_all_iff)
  show ?thesis
  proof (cases op)
    case (OpLoadLocal io k)
    have e: "op_effect s (apply_op s op)" using OpLoadLocal LoadLocal_effect by simp
    then show ?thesis
      using store_inv_effect [OF e inv] reader_open_effect [OF e po] p
      by (auto simp: op_effect_def)
  next
    case (OpPut io uid k r)
    have e: "op_effect s (apply_op s op)" using OpPut Put_effect by simp
    then show ?thesis
      using store_inv_effect [OF e inv] reader_open_effect [OF e po] p
      by (auto simp: op_effect_def)
  next
    case (OpGet k)
    show ?thesis
    proof (cases "ArLocalStore_Get s k")
      case None
      then show ?thesis using OpGet inv p by simp
    next
      case (Some q)
      then have "q \<in> set (map snd (readers s))"
        by (auto simp: ArLocalStore_Get_def dest: map_of_SomeD intro: rev_image_eqI)
      then have "reader_open s q" using inv by (auto simp: store_inv_def list_all_iff)
      then show ?thesis
        using OpGet Some inv p by (auto simp: store_inv_def reader_open_def list_all_iff)
    qed
  next
    case (OpRelease q)
    then have "q \<noteq> p" using op by simp
    then have "p \<in> set (remove1 q (held s))" using p by simp
    moreover have "set (remove1 q (held s)) \<subseteq> set (held s)" by (rule set_remove1_subset)
    ultimately show ?thesis
      using OpRelease inv by (auto simp: store_inv_def reader_open_def list_all_iff)
  next
    case (OpFinalize q)
    show ?thesis
    proof (cases "q \<in> set (map snd (readers s)) \<or> q \<in> set (held s)")
      case True
      then show ?thesis using OpFinalize inv p by auto
    next
      case False
      have "\<And>x. reader_open s x \<Longrightarrow> x \<noteq> q \<Longrightarrow> reader_open (close_reader s q) x"
        by (auto simp: reader_open_def close_reader_def)
      moreover have "held (close_reader s q) = held s" "readers (close_reader s q) = readers s"
        by (simp_all add: close_reader_def)
      moreover have "q \<noteq> p" using False p by auto
      moreover have "heap (close_reader s q) ! p = heap s ! p"
        using \<open>q \<noteq> p\<close> by (simp add: close_reader_def)
      ultimately show ?thesis
        using OpFinalize False inv p
        by (auto simp: store_inv_def list_all_iff)
    qed
  qed
qed

lemma store_inv_apply_op: "store_inv s \<Longrightarrow> store_inv (apply_op s op)"
proof (cases op)
  case (OpLoadLocal io k)
  assume "store_inv s"
  then show ?thesis using OpLoadLocal store_inv_effect [OF LoadLocal_effect] by simp
next
  case (OpPut io uid k r)
  assume "store_inv s"
  then show ?thesis using OpPut store_inv_effect [OF Put_effect] by simp
next
  case (OpGet k)
  assume inv: "store_inv s"
  show ?thesis
  proof (cases "ArLocalStore_Get s k")
    case None
    then show ?thesis using OpGet inv by simp
  next
    case (Some q)
    then have "q \<in> set (map snd (readers s))"
      by (auto simp: ArLocalStore_Get_def dest: map_of_SomeD intro: rev_image_eqI)
    then show ?thesis
      using OpGet Some inv by (auto simp: store_inv_def reader_open_def list_all_iff)
  qed
next
  case (OpRelease q)
  assume inv: "store_inv s"
  have "set (remove1 q (held s)) \<subseteq> set (held s)" by (rule set_remove1_subset)
  then show ?thesis
    using OpRelease inv by (auto simp: store_inv_def reader_open_def list_all_iff)
next
  case (OpFinalize q)
  assume inv: "store_inv s"
  show ?thesis
  proof (cases "q \<in> set (map snd (readers s)) \<or> q \<in> set (held s)")
    case True
    then show ?thesis using OpFinalize inv by auto
  next
    case False
    have "\<And>x. reader_open s x \<Longrightarrow> x \<noteq> q \<Longrightarrow> reader_open (close_reader s q) x"
      by (auto simp: reader_open_def close_reader_def)
    moreover have "held (close_reader s q) = held s" "readers (close_reader s q) = readers s"
      by (simp_all add: close_reader_def)
    ultimately show ?thesis
      using OpFinalize False inv by (auto simp: store_inv_def list_all_iff)
  qed
qed

lemma store_inv_run_ops: "store_inv s \<Longrightarrow> store_inv (run_ops s ops)"
  unfolding run_ops_def
  by (induction ops arbitrary: s) (auto intro: store_inv_apply_op)

lemma store_inv_New: "store_inv (NewArLocalStore wd fls)"
  by (simp add: store_inv_def NewArLocalStore_def)

lemma held_reader_survives:
  "store_inv s \<Longrightarrow> p \<in> set (held s) \<Longrightarrow> OpRelease p \<notin> set ops \<Longrightarrow>
   reader_open (run_ops s ops) p \<and> heap (run_ops s ops) ! p = heap s ! p"
proof (induction ops arbitrary: s)
  case Nil
  then show ?case by (auto simp: run_ops_def store_inv_def list_all_iff)
next
  case (Cons op ops)
  have op: "op \<noteq> OpRelease p" using Cons.prems(3) by auto
  from apply_op_step [OF Cons.prems(1,2) op]
  have a: "store_inv (apply_op s op)" "p \<in> set (held (apply_op s op))"
    "heap (apply_op s op) ! p = heap s ! p" by simp_all
  have "reader_open (run_ops (apply_op s op) ops) p \<and>
        heap (run_ops (apply_op s op) ops) ! p = heap (apply_op s op) ! p"
    using Cons.IH [OF a(1,2)] Cons.prems(3) by simp
  then show ?case using a(3) by (simp add: run_ops_def)
qed

text \<open>
  Claim C7. In every state \<open>s\<close> that the store reaches from its creation, once a consumer
  has taken the reader \<open>p\<close> of a keyspace with \<open>Get\<close>, then after any further operations
  (puts of new bundles for any keyspace, loads, gets, other consumers dropping their
  readers, finalizers), as long as the consumer does not drop \<open>p\<close>, the reader \<open>p\<close> is
  not closed and is the unchanged object it was, with the entries of the old bundle.
\<close>

theorem reader_survives_put:
  assumes "s = run_ops (NewArLocalStore wd fls) ops1"
    and "ArLocalStore_Get s keyspace = Some p"
    and "OpRelease p \<notin> set ops2"
  shows "reader_open (run_ops (apply_op s (OpGet keyspace)) ops2) p \<and>
         heap (run_ops (apply_op s (OpGet keyspace)) ops2) ! p = heap s ! p"
proof -
  have inv: "store_inv s"
    unfolding assms(1) by (rule store_inv_run_ops) (rule store_inv_New)
  have inv': "store_inv (apply_op s (OpGet keyspace))"
    using inv by (rule store_inv_apply_op)
  have h: "p \<in> set (held (apply_op s (OpGet keyspace)))"
    using assms(2) by simp
  have "heap (apply_op s (OpGet keyspace)) = heap s"
    using assms(2) by simp
  then show ?thesis
    using held_reader_survives [OF inv' h assms(3)] by simp
qed


definition io_ok :: ar_io where
  "io_ok = \<lparr> stat_fails = False, create_fails = False, copy_fails = False,
             open_fails = False, rename_fails = False \<rparr>"

definition example_bundle :: content where
  "example_bundle =
     Zip [\<lparr> zf_Name = ''a1'',
            zf_Comment = Some \<lparr> ActionID = [0xa1], OutputID = [0x10], Size = 0, Time = 0 \<rparr>,
            zf_Data = [] \<rparr>]"

lemma example_first_put:
  "run_ops (NewArLocalStore ''w'' []) [OpPut io_ok ''id1'' ''a'' (example_bundle, None)] =
     \<lparr> workDir = ''w'', readers = [(''a'', 0)],
       heap = [\<lparr> z_closed = False,
                 files = [(''a1'', \<lparr> ActionID = [0xa1], OutputID = [0x10], Size = 0, Time = 0,
                                     entry_reader = 0, entry_data = [] \<rparr>)] \<rparr>],
       bundle_files = [(''w/blobar/a.zip'', example_bundle)], held = [] \<rparr>"
  by (simp add: run_ops_def NewArLocalStore_def ArLocalStore_Put_def NewArReader_def io_ok_def
      example_bundle_def ArchiveFilePath_def ArLocalStore_set_def Let_def)

theorem reader_survives_put_witness:
  "ArLocalStore_Get
     (run_ops (NewArLocalStore ''w'' []) [OpPut io_ok ''id1'' ''a'' (example_bundle, None)]) ''a''
     = Some 0 \<and>
   OpRelease 0 \<notin> set [OpPut io_ok ''id2'' ''a'' (Zip [], None), OpFinalize 0] \<and>
   reader_open
     (run_ops
        (apply_op
           (run_ops (NewArLocalStore ''w'' []) [OpPut io_ok ''id1'' ''a'' (example_bundle, None)])
           (OpGet ''a''))
        [OpPut io_ok ''id2'' ''a'' (Zip [], None), OpFinalize 0]) 0"
proof -
  have g: "ArLocalStore_Get
     (run_ops (NewArLocalStore ''w'' []) [OpPut io_ok ''id1'' ''a'' (example_bundle, None)]) ''a''
     = Some 0"
    by (simp only: example_first_put) (simp add: ArLocalStore_Get_def)
  have r: "OpRelease 0 \<notin> set [OpPut io_ok ''id2'' ''a'' (Zip [], None), OpFinalize 0]"
    by simp
  from reader_survives_put [OF refl g r] g r show ?thesis by blast
qed

text \<open>The second put does replace the reader of the keyspace in the map.\<close>

lemma example_second_put:
  "readers
     (run_ops
        (apply_op
           (run_ops (NewArLocalStore ''w'' []) [OpPut io_ok ''id1'' ''a'' (example_bundle, None)])
           (OpGet ''a''))
        [OpPut io_ok ''id2'' ''a'' (Zip [], None), OpFinalize 0]) = [(''a'', 1)]"
  by (simp only: example_first_put)
     (simp add: run_ops_def ArLocalStore_Put_def NewArReader_def io_ok_def
      ArchiveFilePath_def ArLocalStore_set_def ArLocalStore_Get_def Let_def)

section \<open>Remote bucket\<close>

text \<open>
  The bucket holds standalone objects (keys \<open>b/XX/HEX\<close>, each an EntryMeta followed by
  the body) and bundles (keys \<open>blobar/K.zip\<close>); the two are kept apart, as their keys
  never meet. \<open>remote_fails\<close> says which calls to the remote fail (the network, a
  timeout, a cancelled context). Opening a reader gives not-found, another failure, or
  the reader.
\<close>

datatype remote_call =
    NewReaderCall string
  | ReadCall string
  | UploadCall string

record Bucket =
  blobs :: "(string \<times> bytes) list"
  archives :: "(string \<times> content) list"
  remote_fails :: "remote_call \<Rightarrow> bool"

datatype 'a found = NotFound | Failed error | Found 'a

definition Bucket_NewReader :: "Bucket \<Rightarrow> string \<Rightarrow> reader found" where
  "Bucket_NewReader b key =
     (if remote_fails b (NewReaderCall key) then Failed ErrIO
      else case map_of (blobs b) key of
             None \<Rightarrow> NotFound
           | Some bs \<Rightarrow>
               Found (if remote_fails b (ReadCall key) then ([], Some ErrIO) else (bs, None)))"

definition Bucket_NewArchiveReader :: "Bucket \<Rightarrow> string \<Rightarrow> (content \<times> error option) found" where
  "Bucket_NewArchiveReader b key =
     (if remote_fails b (NewReaderCall key) then Failed ErrIO
      else case map_of (archives b) key of
             None \<Rightarrow> NotFound
           | Some c \<Rightarrow>
               Found (if remote_fails b (ReadCall key) then (NotZip, Some ErrIO) else (c, None)))"

definition Bucket_UploadArchive :: "Bucket \<Rightarrow> string \<Rightarrow> content \<Rightarrow> error option \<times> Bucket" where
  "Bucket_UploadArchive b key c =
     (if remote_fails b (UploadCall key) then (Some ErrIO, b)
      else (None, b\<lparr> archives := AList.update key c (archives b) \<rparr>))"

section \<open>Bundle store\<close>

record ArStore =
  ar_local :: ArLocalStore
  lastSyncAt :: "(string \<times> go_time) list"

definition ArStore_GetArchive :: "ArStore \<Rightarrow> string \<Rightarrow> nat option" where
  "ArStore_GetArchive s keyspace = ArLocalStore_Get (ar_local s) keyspace"

text \<open>
  \<open>GetBlob\<close>: the entry of the current reader under the name of the ActionID, unless its
  own ActionID differs.
\<close>

definition ArStore_GetBlob :: "ArStore \<Rightarrow> string \<Rightarrow> bytes \<Rightarrow> ArEntry option" where
  "ArStore_GetBlob s keyspace actionID =
     (case ArLocalStore_Get (ar_local s) keyspace of
        None \<Rightarrow> None
      | Some r \<Rightarrow>
          if \<not> r < length (heap (ar_local s)) then None
          else
            (case ArReader_Get (heap (ar_local s) ! r) (CacheEntityNameInArchive actionID) of
               None \<Rightarrow> None
             | Some entry \<Rightarrow> if ActionID entry \<noteq> actionID then None else Some entry))"

text \<open>
  \<open>ArEntry.Open\<close> reads through the zip handle of the entry's reader, and fails once that
  handle is closed.
\<close>

definition ArEntry_Open :: "ArLocalStore \<Rightarrow> bool \<Rightarrow> ArEntry \<Rightarrow> error + reader" where
  "ArEntry_Open s open_fails' e =
     (if open_fails' then Inl (Wrapf ''failed to open file in BlobArchive'' ErrIO)
      else if \<not> entry_reader e < length (heap s) \<or> z_closed (heap s ! entry_reader e) then
        Inl (Wrapf ''failed to open file in BlobArchive'' (Errorf ''file already closed''))
      else Inr (entry_data e, None))"

text \<open>
  \<open>SyncFromRemote\<close>: at most once in five seconds per keyspace, the remote bundle is
  fetched and put into the local store.
\<close>

definition ArStore_SyncFromRemote ::
  "env \<Rightarrow> ar_io \<Rightarrow> Bucket \<Rightarrow> ArStore \<Rightarrow> string \<Rightarrow> error option \<times> ArStore" where
  "ArStore_SyncFromRemote e io b s keyspace =
     (if (case map_of (lastSyncAt s) keyspace of
            None \<Rightarrow> False
          | Some lastSync \<Rightarrow> now e - lastSync < 5000000000)
      then (None, s)
      else
        (case Bucket_NewArchiveReader b (ArchiveKey keyspace) of
           NotFound \<Rightarrow> (None, s)
         | Failed err \<Rightarrow> (Some (Wrapf ''failed to read'' err), s)
         | Found blobReader \<Rightarrow>
             (case ArLocalStore_Put (ar_local s) io (uniqueId e) keyspace blobReader of
                (Some err, l) \<Rightarrow> (Some err, s\<lparr> ar_local := l \<rparr>)
              | (None, l) \<Rightarrow>
                  (None, s\<lparr> ar_local := l,
                             lastSyncAt := AList.update keyspace (now e) (lastSyncAt s) \<rparr>))))"

text \<open>
  \<open>IngestNewArchive\<close>: the file (\<open>None\<close> when it cannot be opened) is put into the local
  store and then uploaded over the remote bundle.
\<close>

definition ArStore_IngestNewArchive ::
  "env \<Rightarrow> ar_io \<Rightarrow> Bucket \<Rightarrow> ArStore \<Rightarrow> string \<Rightarrow> content option \<Rightarrow>
   error option \<times> ArStore \<times> Bucket" where
  "ArStore_IngestNewArchive e io b s keyspace localFile =
     (case localFile of
        None \<Rightarrow> (Some (Wrapf ''failed to open'' ErrNotExist), s, b)
      | Some file \<Rightarrow>
          (case ArLocalStore_Put (ar_local s) io (uniqueId e) keyspace (file, None) of
             (Some err, l) \<Rightarrow> (Some err, s\<lparr> ar_local := l \<rparr>, b)
           | (None, l) \<Rightarrow>
               (case Bucket_UploadArchive b (ArchiveKey keyspace) file of
                  (Some err, b') \<Rightarrow> (Some (Wrapf ''failed to upload'' err), s\<lparr> ar_local := l \<rparr>, b')
                | (None, b') \<Rightarrow>
                    (None,
                     s\<lparr> ar_local := l,
                        lastSyncAt := AList.update keyspace (now e) (lastSyncAt s) \<rparr>,
                     b'))))"

section \<open>Blob backend\<close>

text \<open>
  The backend owns the local cache, the bundle store and the bucket. \<open>zip_fails\<close> says
  whether opening an entry of a bundle fails for a reason outside the model. The
  single-flight group of \<open>Get\<close> is a plain call for one caller at a time; the statistics
  counters are left out.
\<close>

record BlobBackend =
  bb_closed :: bool
  diskStore :: LocalBackend
  archiveStore :: ArStore
  bucket :: Bucket
  zip_fails :: bool

definition hit_response :: "bytes \<Rightarrow> 64 word \<Rightarrow> go_time \<Rightarrow> string \<Rightarrow> GetResponse" where
  "hit_response outputID size' time' diskPath =
     \<lparr> Miss = False, resp_OutputID = outputID, resp_Size = size', resp_Time = Some time',
       DiskPath = diskPath \<rparr>"

text \<open>The bundle slow path: the body of the entry goes through a put of the local cache.\<close>

definition get_from_archive ::
  "env \<Rightarrow> BlobBackend \<Rightarrow> GetOpts \<Rightarrow> ArEntry \<Rightarrow> GetResponse result \<times> BlobBackend" where
  "get_from_archive e store opts arEntry =
     (case ArEntry_Open (ar_local (archiveStore store)) (zip_fails store) arEntry of
        Inl err \<Rightarrow> (Err (Wrapf ''failed to open archive entry'' err), store)
      | Inr zipFileHandle \<Rightarrow>
          (case LocalBackend_Put e (diskStore store)
                  \<lparr> Req = \<lparr> put_ActionID = ActionID arEntry, put_OutputID = OutputID arEntry,
                             BodySize = Size arEntry \<rparr>,
                    Body = zipFileHandle,
                    OverrideTime = Some (Time arEntry),
                    put_IsInCompaction = get_IsInCompaction opts \<rparr> of
             (Panic p, ds) \<Rightarrow> (Panic p, store\<lparr> diskStore := ds \<rparr>)
           | (Err err, ds) \<Rightarrow>
               (Err (Wrapf ''failed to put archive entry in disk store'' err),
                store\<lparr> diskStore := ds \<rparr>)
           | (Ok putResp, ds) \<Rightarrow>
               (Ok (hit_response (OutputID arEntry) (Size arEntry) (Time arEntry)
                      (put_DiskPath putResp)),
                store\<lparr> diskStore := ds \<rparr>)))"

text \<open>The remote download of the object \<open>b/XX/HEX\<close>.\<close>

definition get_from_remote ::
  "env \<Rightarrow> BlobBackend \<Rightarrow> GetOpts \<Rightarrow> GetResponse result \<times> BlobBackend" where
  "get_from_remote e store opts =
     (case CacheEntityKey (get_ActionID opts) of
        Panic p \<Rightarrow> (Panic p, store)
      | Err err \<Rightarrow> (Err err, store)
      | Ok key \<Rightarrow>
          (case Bucket_NewReader (bucket store) key of
             NotFound \<Rightarrow> (Ok miss_response, store)
           | Failed err \<Rightarrow> (Err err, store)
           | Found r \<Rightarrow>
               (case ReadEntryMeta r of
                  (Inl err, _) \<Rightarrow> (Err (Wrapf ''failed to read entry metadata'' err), store)
                | (Inr meta, r') \<Rightarrow>
                    if ActionID meta \<noteq> get_ActionID opts then
                      (Err (Errorf ''actionID mismatch''), store)
                    else
                      (case LocalBackend_Put e (diskStore store)
                              \<lparr> Req = \<lparr> put_ActionID = ActionID meta,
                                         put_OutputID = OutputID meta,
                                         BodySize = Size meta \<rparr>,
                                Body = r',
                                OverrideTime = Some (Time meta),
                                put_IsInCompaction = get_IsInCompaction opts \<rparr> of
                         (Panic p, ds) \<Rightarrow> (Panic p, store\<lparr> diskStore := ds \<rparr>)
                       | (Err err, ds) \<Rightarrow>
                           (Err (Wrapf ''failed to put entry in disk store'' err),
                            store\<lparr> diskStore := ds \<rparr>)
                       | (Ok diskPutResp, ds) \<Rightarrow>
                           (Ok (hit_response (OutputID meta) (Size meta) (Time meta)
                                  (put_DiskPath diskPutResp)),
                            store\<lparr> diskStore := ds \<rparr>)))))"

text \<open>The local disk, and after a miss there the bundle slow path or the remote download.\<close>

definition get_from_disk ::
  "env \<Rightarrow> BlobBackend \<Rightarrow> GetOpts \<Rightarrow> ArEntry option \<Rightarrow> GetResponse result \<times> BlobBackend" where
  "get_from_disk e store opts arEntry =
     (case LocalBackend_Get (diskStore store) opts of
        (Panic p, ds) \<Rightarrow> (Panic p, store\<lparr> diskStore := ds \<rparr>)
      | (Err err, ds) \<Rightarrow> (Err err, store\<lparr> diskStore := ds \<rparr>)
      | (Ok diskResp, ds) \<Rightarrow>
          if \<not> Miss diskResp then (Ok diskResp, store\<lparr> diskStore := ds \<rparr>)
          else
            (case arEntry of
               Some ent \<Rightarrow> get_from_archive e (store\<lparr> diskStore := ds \<rparr>) opts ent
             | None \<Rightarrow> get_from_remote e (store\<lparr> diskStore := ds \<rparr>) opts))"

definition BlobBackend_get ::
  "env \<Rightarrow> BlobBackend \<Rightarrow> GetOpts \<Rightarrow> GetResponse result \<times> BlobBackend" where
  "BlobBackend_get e store opts =
     (if length (get_ActionID opts) = 0 then
        (Err (Errorf ''actionID must be specified in GetRequest''), store)
      else
        (case CacheEntityKeyspace (get_ActionID opts) of
           Panic p \<Rightarrow> (Panic p, store)
         | Err err \<Rightarrow> (Err err, store)
         | Ok keyspace \<Rightarrow>
             (case ArStore_GetBlob (archiveStore store) keyspace (get_ActionID opts) of
                None \<Rightarrow> get_from_disk e store opts None
              | Some arEntry \<Rightarrow>
                  if Size arEntry = 0 then
                    (case EnsureEmptyOutputFile (diskStore store) of
                       (Inl err, ds) \<Rightarrow>
                         (Err (Wrapf ''failed to prepare empty output file'' err),
                          store\<lparr> diskStore := ds \<rparr>)
                     | (Inr outputPath', ds) \<Rightarrow>
                         (Ok (hit_response (OutputID arEntry) (Size arEntry) (Time arEntry)
                                (render outputPath')),
                          store\<lparr> diskStore := ds \<rparr>))
                  else get_from_disk e store opts (Some arEntry))))"

text \<open>
  The public \<open>Get\<close>. On an error its log line takes \<open>CacheEntityKey(opts.Req.ActionID)\<close>
  as an argument, which is evaluated before the response is made.
\<close>

definition BlobBackend_Get ::
  "env \<Rightarrow> BlobBackend \<Rightarrow> GetOpts \<Rightarrow> GetResponse result \<times> BlobBackend" where
  "BlobBackend_Get e store opts =
     (if bb_closed store then (Err (Errorf ''blob store is closed''), store)
      else
        (case BlobBackend_get e store opts of
           (Err err, store') \<Rightarrow>
             (case CacheEntityKey (get_ActionID opts) of
                Panic p \<Rightarrow> (Panic p, store')
              | _ \<Rightarrow> (Ok miss_response, store'))
         | (res, store') \<Rightarrow> (res, store')))"


section \<open>Properties of the blob backend\<close>















definition no_remote_faults :: "remote_call \<Rightarrow> bool" where
  "no_remote_faults c = False"

definition example_meta :: EntryMeta where
  "example_meta =
     \<lparr> ActionID = [0xab, 0xcd], OutputID = [0x10], Size = 3, Time = 1700000000000000000 \<rparr>"

definition example_backend :: BlobBackend where
  "example_backend =
     \<lparr> bb_closed = False,
       diskStore = example_store,
       archiveStore = \<lparr> ar_local = NewArLocalStore ''w'' [], lastSyncAt = [] \<rparr>,
       bucket = \<lparr> blobs = [(''b/ab/abcd'', WriteTo_buf example_meta @ [0x66, 0x6f, 0x6f])],
                  archives = [], remote_fails = no_remote_faults \<rparr>,
       zip_fails = False \<rparr>"








text \<open>
  The translation of errors into misses by the public \<open>Get\<close>: for a request with an
  ActionID, every error of \<open>get\<close> becomes a miss, and an open backend never returns an
  error.
\<close>

lemma BlobBackend_Get_error_is_miss:
  assumes "\<not> bb_closed store" and "get_ActionID opts \<noteq> []"
    and "BlobBackend_get e store opts = (Err err, store')"
  shows "BlobBackend_Get e store opts = (Ok miss_response, store')"
  using assms
  by (auto simp: BlobBackend_Get_def CacheEntityKey_def split: list.splits)

lemma BlobBackend_Get_never_error:
  assumes "\<not> bb_closed store"
  shows "fst (BlobBackend_Get e store opts) \<noteq> Err err"
  using assms
  by (auto simp: BlobBackend_Get_def split: prod.splits result.splits)

text \<open>
  Claim C1 at a concrete input: for a request without ActionID on an open backend, \<open>get\<close>
  fails with its validation error, and \<open>Get\<close> then panics on the argument
  \<open>CacheEntityKey(opts.Req.ActionID)\<close> of its log line instead of returning a miss.
\<close>

theorem BlobBackend_Get_empty_ActionID_panics:
  "BlobBackend_get e (store\<lparr> bb_closed := False \<rparr>)
     \<lparr> get_ActionID = [], get_IsInCompaction = c \<rparr>
     = (Err (Errorf ''actionID must be specified in GetRequest''), store\<lparr> bb_closed := False \<rparr>) \<and>
   BlobBackend_Get e (store\<lparr> bb_closed := False \<rparr>)
     \<lparr> get_ActionID = [], get_IsInCompaction = c \<rparr>
     = (Panic IndexOutOfRange, store\<lparr> bb_closed := False \<rparr>)"
  by (simp add: BlobBackend_Get_def BlobBackend_get_def CacheEntityKey_def)

section \<open>Compaction job\<close>

text \<open>
  One object of the listing. The list iterator of the bucket is the remote service's: a
  listing is the objects that the iterator returns for the prefix \<open>b/k\<close>, in order, and
  the error that ends the iteration, if it does not end with \<open>io.EOF\<close>.
\<close>

record ListObject =
  obj_Key :: string
  obj_Size :: int
  obj_IsDir :: bool

record compactItem =
  item_ActionID :: bytes
  ObjectKey :: string
  ObjectSize :: int

definition CompactionSmallBlobSize :: int where
  "CompactionSmallBlobSize = 1 * 1024 * 1024"

definition CompactionAtLeastAddFiles :: int where
  "CompactionAtLeastAddFiles = 10"

text \<open>
  The job. \<open>newArFile\<close> is the temporary file of the new bundle, with the files added to
  it so far (\<open>None\<close> when there is no temporary file).
\<close>

record CompactionJob =
  job_Keyspace :: string
  isSkipped :: bool
  plannedList :: "compactItem list"
  newArFile :: "zip_file list option"
  nIncludedFiles :: int
  nNewlyAddedFiles :: int
  nNewlyAddedBytes :: int
  nNewlyRemovedFiles :: int

definition NewCompactionJob :: "string \<Rightarrow> CompactionJob" where
  "NewCompactionJob keyspace =
     \<lparr> job_Keyspace = keyspace, isSkipped = False, plannedList = [], newArFile = None,
       nIncludedFiles = 0, nNewlyAddedFiles = 0, nNewlyAddedBytes = 0,
       nNewlyRemovedFiles = 0 \<rparr>"

text \<open>
  The listing loop of \<open>step1FindBlobsToCompact\<close>: directories and objects of 1 MiB or
  more are skipped, and so are keys that \<open>DecodeCacheEntityKey\<close> rejects with an error; a
  panic of \<open>DecodeCacheEntityKey\<close> leaves the loop.
\<close>

fun list_loop ::
  "ListObject list \<Rightarrow> error option \<Rightarrow> compactItem list \<Rightarrow> int \<Rightarrow>
   unit result \<times> compactItem list \<times> int" where
  "list_loop [] fin planned plannedTotalSize =
     (case fin of
        None \<Rightarrow> (Ok (), planned, plannedTotalSize)
      | Some err \<Rightarrow>
          (Err (Wrapf ''failed to list objects using prefix'' err), planned, plannedTotalSize))"
| "list_loop (obj # rest) fin planned plannedTotalSize =
     (if obj_IsDir obj then list_loop rest fin planned plannedTotalSize
      else if obj_Size obj \<ge> CompactionSmallBlobSize then
        list_loop rest fin planned plannedTotalSize
      else
        (case DecodeCacheEntityKey (obj_Key obj) of
           Panic p \<Rightarrow> (Panic p, planned, plannedTotalSize)
         | Err err \<Rightarrow> list_loop rest fin planned plannedTotalSize
         | Ok actionID \<Rightarrow>
             list_loop rest fin
               (planned @ [\<lparr> item_ActionID = actionID, ObjectKey = obj_Key obj,
                              ObjectSize = obj_Size obj \<rparr>])
               (plannedTotalSize + obj_Size obj)))"

text \<open>The two counting loops over the planned list and over the names of the bundle.\<close>

definition count_added :: "ArReader \<Rightarrow> CompactionJob \<Rightarrow> compactItem \<Rightarrow> CompactionJob" where
  "count_added ar c item =
     (if ArReader_Get ar (CacheEntityNameInArchive (item_ActionID item)) = None then
        c\<lparr> nNewlyAddedFiles := nNewlyAddedFiles c + 1,
           nNewlyAddedBytes := nNewlyAddedBytes c + ObjectSize item \<rparr>
      else c)"

definition count_removed :: "string list \<Rightarrow> CompactionJob \<Rightarrow> string \<Rightarrow> CompactionJob" where
  "count_removed finalArchiveNames c name =
     (if name \<notin> set finalArchiveNames then c\<lparr> nNewlyRemovedFiles := nNewlyRemovedFiles c + 1 \<rparr>
      else c)"

text \<open>\<open>GetArchive\<close>, with the reader that the pointer refers to.\<close>

definition current_bundle :: "ArStore \<Rightarrow> string \<Rightarrow> ArReader option" where
  "current_bundle s keyspace =
     (case ArStore_GetArchive s keyspace of
        None \<Rightarrow> None
      | Some r \<Rightarrow> if r < length (heap (ar_local s)) then Some (heap (ar_local s) ! r) else None)"

definition step1FindBlobsToCompact ::
  "ListObject list \<times> error option \<Rightarrow> ArStore \<Rightarrow> CompactionJob \<Rightarrow>
   bool result \<times> CompactionJob" where
  "step1FindBlobsToCompact listing arStore c =
     (case list_loop (fst listing) (snd listing) [] 0 of
        (Panic p, planned, tot) \<Rightarrow> (Panic p, c\<lparr> plannedList := planned \<rparr>)
      | (Err err, planned, tot) \<Rightarrow> (Err err, c\<lparr> plannedList := planned \<rparr>)
      | (Ok _, planned, plannedTotalSize) \<Rightarrow>
          (let c1 = c\<lparr> plannedList := planned \<rparr> in
           if length planned = 0 then (Ok False, c1)
           else
             (let c2 = c1\<lparr> nNewlyAddedFiles := 0 \<rparr>;
                  c3 = (case current_bundle arStore (job_Keyspace c) of
                          Some reader \<Rightarrow>
                            foldl (count_removed
                                     (map (\<lambda>item. CacheEntityNameInArchive (item_ActionID item))
                                        planned))
                              (foldl (count_added reader) c2 planned)
                              (ArReader_List reader)
                        | None \<Rightarrow>
                            c2\<lparr> nNewlyAddedFiles := int (length planned),
                                nNewlyAddedBytes := plannedTotalSize,
                                nNewlyRemovedFiles := 0 \<rparr>)
              in if nNewlyAddedFiles c3 < CompactionAtLeastAddFiles then (Ok False, c3)
                 else (Ok True, c3))))"

text \<open>
  What one run of the job meets outside the stores: the clock and the identifiers of the
  refresh, of the gets and of the ingestion, the listing, and which system calls fail.
\<close>

record compaction_io =
  sync_env :: env
  sync_io :: ar_io
  listing :: "ListObject list \<times> error option"
  createTemp_fails :: bool
  get_env :: "bytes \<Rightarrow> env"
  add_fails :: "string \<Rightarrow> bool"
  writer_close_fails :: bool
  file_close_fails :: bool
  ingest_env :: env
  ingest_io :: ar_io

text \<open>
  \<open>os.ReadFile\<close> of a path given as a string: the file whose path is written so.
\<close>

definition os_ReadFile :: "disk \<Rightarrow> string \<Rightarrow> error + bytes" where
  "os_ReadFile d name =
     (case find (\<lambda>(p, n). render p = name) (nodes d) of
        None \<Rightarrow> Inl ErrNotExist
      | Some (p, Dir) \<Rightarrow> Inl (Errorf ''is a directory'')
      | Some (p, File bs) \<Rightarrow>
          if fails d (SysOpen p) \<or> fails d (SysRead p) then Inl ErrIO else Inr bs)"

text \<open>
  The gets of step 2, one item after the other in the order of the planned list (the pool
  of 32 workers is not modelled): an item whose get fails or misses is dropped. A panic
  of a get leaves the step.
\<close>

fun download_all ::
  "(bytes \<Rightarrow> env) \<Rightarrow> BlobBackend \<Rightarrow> compactItem list \<Rightarrow>
   (panic + (compactItem \<times> GetResponse) list) \<times> BlobBackend" where
  "download_all e store [] = (Inr [], store)"
| "download_all e store (item # rest) =
     (case BlobBackend_Get (e (item_ActionID item)) store
             \<lparr> get_ActionID = item_ActionID item, get_IsInCompaction = True \<rparr> of
        (Panic p, store') \<Rightarrow> (Inl p, store')
      | (Err err, store') \<Rightarrow> download_all e store' rest
      | (Ok resp, store') \<Rightarrow>
          if Miss resp then download_all e store' rest
          else
            (case download_all e store' rest of
               (Inl p, store'') \<Rightarrow> (Inl p, store'')
             | (Inr results, store'') \<Rightarrow> (Inr ((item, resp) # results), store'')))"

text \<open>
  \<open>ArWriter.Add\<close> (ar.go) on the files written so far: the data must have the size that
  the meta says; \<open>addFails\<close> says for which names the encoding of the comment or the
  write to the zip file fails. A failed \<open>Add\<close> leaves no readable entry.
\<close>

definition ArWriter_Add ::
  "(string \<Rightarrow> bool) \<Rightarrow> zip_file list \<Rightarrow> string \<Rightarrow> EntryMeta \<Rightarrow> bytes \<Rightarrow>
   error option \<times> zip_file list" where
  "ArWriter_Add addFails w name meta data =
     (if int (length data) \<noteq> sint (Size meta) then (Some (Errorf ''size mismatch''), w)
      else if addFails name then (Some (Wrapf ''failed to write data'' ErrIO), w)
      else (None, w @ [\<lparr> zf_Name = name, zf_Comment = Some meta, zf_Data = data \<rparr>]))"

text \<open>
  The writer of step 2: the local file of every result is read and checked against the
  size of the response and against the size of the object in the listing, and added to
  the new bundle under the name of its ActionID. An error of \<open>Add\<close> is only logged, and
  \<open>nIncludedFiles\<close> counts also the files whose \<open>Add\<close> failed.
\<close>

fun fill ::
  "(string \<Rightarrow> bool) \<Rightarrow> disk \<Rightarrow> (compactItem \<times> GetResponse) list \<Rightarrow> CompactionJob \<Rightarrow>
   CompactionJob result" where
  "fill addFails d [] c = Ok c"
| "fill addFails d (r # rest) c =
     (case os_ReadFile d (DiskPath (snd r)) of
        Inl err \<Rightarrow> fill addFails d rest c
      | Inr data \<Rightarrow>
          if int (length data) \<noteq> sint (resp_Size (snd r)) then fill addFails d rest c
          else
            (case resp_Time (snd r) of
               None \<Rightarrow> Panic NilDereference
             | Some t \<Rightarrow>
                 (let meta = \<lparr> ActionID = item_ActionID (fst r),
                                OutputID = resp_OutputID (snd r),
                                Size = resp_Size (snd r), Time = t \<rparr>;
                      localObjSize = SerializedSize meta + length data
                  in if int localObjSize \<noteq> ObjectSize (fst r) then fill addFails d rest c
                     else
                       (let name = CacheEntityNameInArchive (item_ActionID (fst r));
                            c' = c\<lparr> newArFile :=
                                     map_option
                                       (\<lambda>w. snd (ArWriter_Add addFails w name meta data))
                                       (newArFile c) \<rparr>
                        in fill addFails d rest
                             (c'\<lparr> nIncludedFiles := nIncludedFiles c' + 1 \<rparr>)))))"

definition step2DownloadAndFill ::
  "compaction_io \<Rightarrow> BlobBackend \<Rightarrow> CompactionJob \<Rightarrow>
   unit result \<times> BlobBackend \<times> CompactionJob" where
  "step2DownloadAndFill io store c =
     (if createTemp_fails io then
        (Err (Wrapf ''failed to create file for new BlobArchive'' ErrIO), store, c)
      else
        (let c1 = c\<lparr> newArFile := Some [] \<rparr> in
         case download_all (get_env io) store (plannedList c1) of
           (Inl p, store') \<Rightarrow> (Panic p, store', c1)
         | (Inr results, store') \<Rightarrow>
             (case fill (add_fails io) (fs (diskStore store')) results c1 of
                Panic p \<Rightarrow> (Panic p, store', c1)
              | Err err \<Rightarrow> (Err err, store', c1)
              | Ok c2 \<Rightarrow> (Ok (), store', c2))))"

definition step3IngestNewArFile ::
  "compaction_io \<Rightarrow> BlobBackend \<Rightarrow> CompactionJob \<Rightarrow> error option \<times> BlobBackend" where
  "step3IngestNewArFile io store c =
     (if writer_close_fails io then (Some ErrIO, store)
      else if file_close_fails io then (Some ErrIO, store)
      else
        (case ArStore_IngestNewArchive (ingest_env io) (ingest_io io) (bucket store)
                (archiveStore store) (job_Keyspace c) (map_option Zip (newArFile c)) of
           (r, arStore', bucket') \<Rightarrow>
             (r, store\<lparr> archiveStore := arStore', bucket := bucket' \<rparr>)))"

text \<open>\<open>cleanUp\<close> removes the temporary file.\<close>

definition cleanUp :: "CompactionJob \<Rightarrow> CompactionJob" where
  "cleanUp c = c\<lparr> newArFile := None \<rparr>"

text \<open>
  \<open>work\<close>: the bundle of the keyspace is refreshed first, an error of the refresh only
  logged; \<open>cleanUp\<close> is deferred, so it runs on every way out.
\<close>

definition work ::
  "compaction_io \<Rightarrow> BlobBackend \<Rightarrow> CompactionJob \<Rightarrow>
   unit result \<times> BlobBackend \<times> CompactionJob" where
  "work io store c =
     (let store1 = store\<lparr> archiveStore :=
                     snd (ArStore_SyncFromRemote (sync_env io) (sync_io io) (bucket store)
                            (archiveStore store) (job_Keyspace c)) \<rparr>
      in case step1FindBlobsToCompact (listing io) (archiveStore store1) c of
           (Panic p, c1) \<Rightarrow> (Panic p, store1, cleanUp c1)
         | (Err err, c1) \<Rightarrow>
             (Err (Wrapf ''failed to find blobs to compact'' err), store1, cleanUp c1)
         | (Ok needCompact, c1) \<Rightarrow>
             if \<not> needCompact then (Ok (), store1, cleanUp (c1\<lparr> isSkipped := True \<rparr>))
             else
               (case step2DownloadAndFill io store1 c1 of
                  (Panic p, store2, c2) \<Rightarrow> (Panic p, store2, cleanUp c2)
                | (Err err, store2, c2) \<Rightarrow>
                    (Err (Wrapf ''failed to download and fill new BlobArchive file'' err),
                     store2, cleanUp c2)
                | (Ok _, store2, c2) \<Rightarrow>
                    (case step3IngestNewArFile io store2 c2 of
                       (Some err, store3) \<Rightarrow>
                         (Err (Wrapf ''failed to ingest new BlobArchive file'' err),
                          store3, cleanUp c2)
                     | (None, store3) \<Rightarrow> (Ok (), store3, cleanUp c2))))"

section \<open>Properties of the compaction job\<close>

lemma DecodeCacheEntityKey_panics_iff:
  "DecodeCacheEntityKey key = Panic p \<longleftrightarrow>
     p = IndexOutOfRange \<and> length key = 5 \<and> key ! 0 = CHR ''b'' \<and> key ! 1 = CHR ''/'' \<and>
     key ! 4 = CHR ''/''"
proof (cases "length key < 5 \<or> key ! 0 \<noteq> CHR ''b'' \<or> key ! 1 \<noteq> CHR ''/'' \<or> key ! 4 \<noteq> CHR ''/''")
  case True
  then show ?thesis
    by (auto simp add: DecodeCacheEntityKey_def)
next
  case False
  show ?thesis
  proof (cases "hex_DecodeString (drop 5 key)")
    case (Inl e)
    with False show ?thesis
      using hex_DecodeString_empty_iff [of "drop 5 key"]
      by (auto simp add: DecodeCacheEntityKey_def)
  next
    case (Inr bs)
    show ?thesis
    proof (cases bs)
      case Nil
      with Inr have "drop 5 key = []"
        using hex_DecodeString_empty_iff [of "drop 5 key"] by simp
      with False Inr Nil show ?thesis
        by (cases p) (auto simp add: DecodeCacheEntityKey_def CacheEntityKey_def)
    next
      case (Cons b bs')
      with Inr have "drop 5 key \<noteq> []"
        using hex_DecodeString_empty_iff [of "drop 5 key"] by auto
      with False Inr Cons show ?thesis
        by (auto simp add: DecodeCacheEntityKey_def CacheEntityKey_def)
    qed
  qed
qed

definition has_empty_hex_remainder :: "string \<Rightarrow> bool" where
  "has_empty_hex_remainder key \<longleftrightarrow>
     length key = 5 \<and> key ! 0 = CHR ''b'' \<and> key ! 1 = CHR ''/'' \<and> key ! 4 = CHR ''/''"

lemma list_loop_panics:
  "obj \<in> set objs \<Longrightarrow> \<not> obj_IsDir obj \<Longrightarrow> obj_Size obj < CompactionSmallBlobSize \<Longrightarrow>
   DecodeCacheEntityKey (obj_Key obj) = Panic p \<Longrightarrow>
   \<exists>q. fst (list_loop objs fin planned tot) = Panic q"
proof (induction objs arbitrary: planned tot)
  case Nil
  then show ?case by simp
next
  case (Cons o' rest)
  show ?case
  proof (cases "obj = o'")
    case True
    with Cons.prems show ?thesis by simp
  next
    case False
    with Cons.prems have "obj \<in> set rest" by simp
    from Cons.IH [OF this Cons.prems(2-4)] show ?thesis
      by (simp split: result.splits)
  qed
qed

lemma list_loop_panic_value:
  "fst (list_loop objs fin planned tot) = Panic q \<Longrightarrow> q = IndexOutOfRange"
proof (induction objs arbitrary: planned tot)
  case Nil
  then show ?case by (simp split: option.splits)
next
  case (Cons o' rest)
  then show ?case
    using DecodeCacheEntityKey_panics_iff [of "obj_Key o'"]
    by (auto split: if_splits result.splits)
qed

text \<open>
  Claim C9 at the keys \<open>b/XX/\<close>: such a key passes the length check of
  \<open>DecodeCacheEntityKey\<close>, its empty remainder decodes to the empty slice, and
  \<open>CacheEntityKey\<close> of the empty slice panics on \<open>actionID[0]\<close>. So the decoding panics
  instead of reporting a parse failure, and with it the listing loop of step 1 and
  \<open>work\<close>, whenever the listing holds a small object with such a key.
\<close>

theorem listing_key_with_empty_remainder_panics:
  assumes "obj \<in> set objs" and "\<not> obj_IsDir obj"
    and "obj_Size obj < CompactionSmallBlobSize"
    and "has_empty_hex_remainder (obj_Key obj)"
  shows "DecodeCacheEntityKey (obj_Key obj) = Panic IndexOutOfRange \<and>
         fst (step1FindBlobsToCompact (objs, fin) arStore c) = Panic IndexOutOfRange \<and>
         fst (work (io\<lparr> listing := (objs, fin) \<rparr>) store c) = Panic IndexOutOfRange"
proof -
  have d: "DecodeCacheEntityKey (obj_Key obj) = Panic IndexOutOfRange"
    using assms(4) DecodeCacheEntityKey_panics_iff [of "obj_Key obj" IndexOutOfRange]
    by (simp add: has_empty_hex_remainder_def)
  have l: "fst (list_loop objs fin [] 0) = Panic IndexOutOfRange"
    using list_loop_panics [OF assms(1-3) d, of fin "[]" 0] list_loop_panic_value
    by metis
  have s: "fst (step1FindBlobsToCompact (objs, fin) arStore' c) = Panic IndexOutOfRange"
    for arStore'
    using l by (cases "list_loop objs fin [] 0") (simp add: step1FindBlobsToCompact_def)
  let ?arStore1 = "snd (ArStore_SyncFromRemote (sync_env io) (sync_io io) (bucket store)
                          (archiveStore store) (job_Keyspace c))"
  obtain c1 where "step1FindBlobsToCompact (objs, fin) ?arStore1 c = (Panic IndexOutOfRange, c1)"
    using s [of ?arStore1] by (cases "step1FindBlobsToCompact (objs, fin) ?arStore1 c") simp
  then have w: "fst (work (io\<lparr> listing := (objs, fin) \<rparr>) store c) = Panic IndexOutOfRange"
    by (simp add: work_def Let_def)
  from d s w show ?thesis by simp
qed

definition addedCount :: "ArReader \<Rightarrow> compactItem list \<Rightarrow> nat" where
  "addedCount ar planned =
     length (filter (\<lambda>item. ArReader_Get ar (CacheEntityNameInArchive (item_ActionID item)) = None)
               planned)"

lemma foldl_count_added:
  "nNewlyAddedFiles (foldl (count_added ar) c xs) = nNewlyAddedFiles c + int (addedCount ar xs)"
  "plannedList (foldl (count_added ar) c xs) = plannedList c"
  "isSkipped (foldl (count_added ar) c xs) = isSkipped c"
  "newArFile (foldl (count_added ar) c xs) = newArFile c"
  "job_Keyspace (foldl (count_added ar) c xs) = job_Keyspace c"
  by (induction xs arbitrary: c; simp add: count_added_def addedCount_def)+

lemma foldl_count_removed:
  "nNewlyAddedFiles (foldl (count_removed names) c xs) = nNewlyAddedFiles c"
  "plannedList (foldl (count_removed names) c xs) = plannedList c"
  "isSkipped (foldl (count_removed names) c xs) = isSkipped c"
  "newArFile (foldl (count_removed names) c xs) = newArFile c"
  "job_Keyspace (foldl (count_removed names) c xs) = job_Keyspace c"
  by (induction xs arbitrary: c; simp add: count_removed_def)+

lemma addedCount_le: "addedCount ar planned \<le> length planned"
  by (simp add: addedCount_def)

lemma addedCount_Nil [simp]: "addedCount ar [] = 0"
  by (simp add: addedCount_def)

text \<open>What step 1 answers and counts, on a listing that ends without error or panic.\<close>

lemma step1_counts:
  fixes l arStore c
  defines "r \<equiv> step1FindBlobsToCompact l arStore c"
  assumes ll: "list_loop (fst l) (snd l) [] 0 = (Ok (), planned, tot)"
    and fresh: "nNewlyAddedFiles c = 0"
  shows "nNewlyAddedFiles (snd r) =
           (case current_bundle arStore (job_Keyspace c) of
              None \<Rightarrow> int (length planned)
            | Some ar \<Rightarrow> int (addedCount ar planned))"
    and "fst r = Ok (CompactionAtLeastAddFiles \<le> nNewlyAddedFiles (snd r))"
    and "plannedList (snd r) = planned"
    and "isSkipped (snd r) = isSkipped c"
    and "newArFile (snd r) = newArFile c"
    and "job_Keyspace (snd r) = job_Keyspace c"
  unfolding r_def step1FindBlobsToCompact_def
  by (simp_all add: ll fresh Let_def foldl_count_added foldl_count_removed
      CompactionAtLeastAddFiles_def addedCount_le split: option.splits)

lemma fill_fields:
  "fill addFails d results c = Ok c' \<Longrightarrow>
   isSkipped c' = isSkipped c \<and> job_Keyspace c' = job_Keyspace c \<and>
   plannedList c' = plannedList c \<and>
   (newArFile c \<noteq> None \<longrightarrow> newArFile c' \<noteq> None)"
proof (induction results arbitrary: c)
  case Nil
  then show ?case by simp
next
  case (Cons r rest)
  show ?case
  proof (cases "os_ReadFile d (DiskPath (snd r))")
    case (Inl err)
    with Cons.prems have "fill addFails d rest c = Ok c'" by simp
    from Cons.IH [OF this] show ?thesis .
  next
    case (Inr data)
    show ?thesis
    proof (cases "int (length data) \<noteq> sint (resp_Size (snd r))")
      case True
      with Inr Cons.prems have "fill addFails d rest c = Ok c'" by simp
      from Cons.IH [OF this] show ?thesis .
    next
      case False
      note sz = this
      show ?thesis
      proof (cases "resp_Time (snd r)")
        case None
        with Inr sz Cons.prems show ?thesis by simp
      next
        case (Some t)
        let ?meta = "\<lparr> ActionID = item_ActionID (fst r), OutputID = resp_OutputID (snd r),
                        Size = resp_Size (snd r), Time = t \<rparr>"
        show ?thesis
        proof (cases "int (SerializedSize ?meta + length data) \<noteq> ObjectSize (fst r)")
          case True
          with Inr sz Some Cons.prems have "fill addFails d rest c = Ok c'"
            by (simp add: Let_def)
          from Cons.IH [OF this] show ?thesis .
        next
          case False
          with Inr sz Some Cons.prems obtain c0 where
            f: "fill addFails d rest c0 = Ok c'"
            and c0: "isSkipped c0 = isSkipped c \<and> job_Keyspace c0 = job_Keyspace c \<and>
                     plannedList c0 = plannedList c \<and>
                     (newArFile c \<noteq> None \<longrightarrow> newArFile c0 \<noteq> None)"
            by (simp add: Let_def)
          from Cons.IH [OF f] c0 show ?thesis by simp
        qed
      qed
    qed
  qed
qed

lemma step2_fields:
  assumes "step2DownloadAndFill io store c = (Ok u, store2, c2)"
  shows "isSkipped c2 = isSkipped c" and "job_Keyspace c2 = job_Keyspace c"
    and "newArFile c2 \<noteq> None" and "\<not> createTemp_fails io"
proof -
  from assms have ct: "\<not> createTemp_fails io"
    by (auto simp add: step2DownloadAndFill_def)
  obtain res store' where d: "download_all (get_env io) store (plannedList c) = (res, store')"
    by (cases "download_all (get_env io) store (plannedList c)")
  from assms ct d obtain results where
    f: "fill (add_fails io) (fs (diskStore store')) results (c\<lparr> newArFile := Some [] \<rparr>) = Ok c2"
    by (auto simp add: step2DownloadAndFill_def Let_def split: sum.splits result.splits)
  from fill_fields [OF f]
  show "isSkipped c2 = isSkipped c" and "job_Keyspace c2 = job_Keyspace c"
    and "newArFile c2 \<noteq> None"
    by simp_all
  show "\<not> createTemp_fails io" by (rule ct)
qed

text \<open>An ingestion that succeeds leaves the file as the local and as the remote bundle.\<close>

lemma IngestNewArchive_success:
  assumes "ArStore_IngestNewArchive e io b s keyspace (Some file) = (None, s', b')"
  shows "map_of (archives b') (ArchiveKey keyspace) = Some file"
    and "map_of (bundle_files (ar_local s'))
           (ArchiveFilePath (workDir (ar_local s)) keyspace) = Some file"
    and "blobs b' = blobs b"
proof -
  obtain r l where p: "ArLocalStore_Put (ar_local s) io (uniqueId e) keyspace (file, None) = (r, l)"
    by (cases "ArLocalStore_Put (ar_local s) io (uniqueId e) keyspace (file, None)")
  from assms p have r: "r = None"
    by (cases r) (simp_all add: ArStore_IngestNewArchive_def)
  obtain r2 b2 where u: "Bucket_UploadArchive b (ArchiveKey keyspace) file = (r2, b2)"
    by (cases "Bucket_UploadArchive b (ArchiveKey keyspace) file")
  from assms p r u have r2: "r2 = None"
    by (cases r2) (simp_all add: ArStore_IngestNewArchive_def)
  from assms p r u r2 have b2: "b2 = b'" and s': "ar_local s' = l"
    by (auto simp add: ArStore_IngestNewArchive_def)
  from u r2 b2 show "map_of (archives b') (ArchiveKey keyspace) = Some file"
    and "blobs b' = blobs b"
    by (auto simp add: Bucket_UploadArchive_def update_conv' split: if_splits)
  let ?tmp = "ArchiveFilePath (workDir (ar_local s)) keyspace @ ''.tmp.'' @ uniqueId e"
  let ?s1 = "(ar_local s)\<lparr> bundle_files := AList.update ?tmp file (bundle_files (ar_local s)) \<rparr>"
  obtain res s2 where n: "NewArReader ?s1 io ?tmp = (res, s2)"
    by (cases "NewArReader ?s1 io ?tmp")
  from p r n show "map_of (bundle_files (ar_local s'))
           (ArchiveFilePath (workDir (ar_local s)) keyspace) = Some file"
    unfolding s'
    by (auto simp add: ArLocalStore_Put_def Let_def ArLocalStore_set_def update_conv'
        split: if_splits sum.splits)
qed

lemma addedCount_all_present:
  "\<forall>item \<in> set planned.
     ArReader_Get ar (CacheEntityNameInArchive (item_ActionID item)) \<noteq> None \<Longrightarrow>
   addedCount ar planned = 0"
  by (simp add: addedCount_def)

text \<open>
  Claim C5. A fresh job runs on a listing that ends without error, giving the planned
  list \<open>planned\<close>; \<open>store1\<close> is the backend after the refresh of the bundle that opens
  \<open>work\<close>, and \<open>c1\<close> the job after step 1. Then: (1) the counter of added files is the
  number of planned items that the current bundle does not hold under their names, and
  the number of all planned items if there is no current bundle; (2) if that counter is
  less than 10, \<open>work\<close> returns without error with the job marked as skipped, no temporary
  file, and the stores and the bucket as the refresh left them; (3) if it is 10 or more
  and neither step 2 nor the ingestion fails, \<open>work\<close> returns without error, the job is
  not marked as skipped, and the bundle built by step 2 is the bundle of the keyspace in
  the bucket; (4) in particular, with a current bundle that holds every planned item the
  job is skipped and nothing is written.
\<close>

theorem compaction_threshold:
  fixes io :: compaction_io and store :: BlobBackend and keyspace :: string
  defines "c \<equiv> NewCompactionJob keyspace"
    and "store1 \<equiv>
           store\<lparr> archiveStore :=
                    snd (ArStore_SyncFromRemote (sync_env io) (sync_io io) (bucket store)
                           (archiveStore store) keyspace) \<rparr>"
  defines "c1 \<equiv> snd (step1FindBlobsToCompact (listing io) (archiveStore store1) c)"
  assumes ll: "list_loop (fst (listing io)) (snd (listing io)) [] 0 = (Ok (), planned, tot)"
  shows
    "nNewlyAddedFiles c1 =
       (case current_bundle (archiveStore store1) keyspace of
          None \<Rightarrow> int (length planned)
        | Some ar \<Rightarrow> int (addedCount ar planned)) \<and>
     (nNewlyAddedFiles c1 < 10 \<longrightarrow>
        work io store c = (Ok (), store1, c1\<lparr> isSkipped := True \<rparr>) \<and>
        newArFile c1 = None \<and> bucket store1 = bucket store) \<and>
     (\<forall>store2 c2 arStore3 bucket3.
        10 \<le> nNewlyAddedFiles c1 \<and>
        step2DownloadAndFill io store1 c1 = (Ok (), store2, c2) \<and>
        \<not> writer_close_fails io \<and> \<not> file_close_fails io \<and>
        ArStore_IngestNewArchive (ingest_env io) (ingest_io io) (bucket store2)
          (archiveStore store2) keyspace (map_option Zip (newArFile c2))
          = (None, arStore3, bucket3) \<longrightarrow>
        work io store c =
          (Ok (), store2\<lparr> archiveStore := arStore3, bucket := bucket3 \<rparr>,
           c2\<lparr> newArFile := None \<rparr>) \<and>
        \<not> isSkipped c2 \<and>
        (\<exists>entries. newArFile c2 = Some entries \<and>
           map_of (archives bucket3) (ArchiveKey keyspace) = Some (Zip entries))) \<and>
     (\<forall>ar. current_bundle (archiveStore store1) keyspace = Some ar \<and>
        (\<forall>item \<in> set planned.
           ArReader_Get ar (CacheEntityNameInArchive (item_ActionID item)) \<noteq> None) \<longrightarrow>
        work io store c = (Ok (), store1, c1\<lparr> isSkipped := True \<rparr>) \<and>
        newArFile c1 = None \<and> bucket store1 = bucket store)"
proof -
  have ks: "job_Keyspace c = keyspace" and fresh: "nNewlyAddedFiles c = 0"
    and ns: "\<not> isSkipped c" and nf: "newArFile c = None"
    by (simp_all add: c_def NewCompactionJob_def)
  note s1 = step1_counts [OF ll fresh, of "archiveStore store1", folded c1_def, unfolded ks]
  have count: "nNewlyAddedFiles c1 =
       (case current_bundle (archiveStore store1) keyspace of
          None \<Rightarrow> int (length planned)
        | Some ar \<Rightarrow> int (addedCount ar planned))"
    by (rule s1(1))
  have st: "step1FindBlobsToCompact (listing io) (archiveStore store1) c
              = (Ok (10 \<le> nNewlyAddedFiles c1), c1)"
    using s1(2) by (simp add: c1_def CompactionAtLeastAddFiles_def prod_eq_iff)
  have w: "work io store c =
     (if \<not> 10 \<le> nNewlyAddedFiles c1 then (Ok (), store1, cleanUp (c1\<lparr> isSkipped := True \<rparr>))
      else
        (case step2DownloadAndFill io store1 c1 of
           (Panic p, store2, c2) \<Rightarrow> (Panic p, store2, cleanUp c2)
         | (Err err, store2, c2) \<Rightarrow>
             (Err (Wrapf ''failed to download and fill new BlobArchive file'' err),
              store2, cleanUp c2)
         | (Ok _, store2, c2) \<Rightarrow>
             (case step3IngestNewArFile io store2 c2 of
                (Some err, store3) \<Rightarrow>
                  (Err (Wrapf ''failed to ingest new BlobArchive file'' err),
                   store3, cleanUp c2)
              | (None, store3) \<Rightarrow> (Ok (), store3, cleanUp c2))))"
    unfolding work_def ks store1_def [symmetric] Let_def st by simp
  have c1f: "newArFile c1 = None" and c1s: "\<not> isSkipped c1"
    using s1(4,5) ns nf by simp_all
  have skip: "nNewlyAddedFiles c1 < 10 \<Longrightarrow>
        work io store c = (Ok (), store1, c1\<lparr> isSkipped := True \<rparr>) \<and>
        newArFile c1 = None \<and> bucket store1 = bucket store"
    using c1f by (simp add: w cleanUp_def store1_def)
  have build: "work io store c =
          (Ok (), store2\<lparr> archiveStore := arStore3, bucket := bucket3 \<rparr>,
           c2\<lparr> newArFile := None \<rparr>) \<and>
        \<not> isSkipped c2 \<and>
        (\<exists>entries. newArFile c2 = Some entries \<and>
           map_of (archives bucket3) (ArchiveKey keyspace) = Some (Zip entries))"
    if h: "10 \<le> nNewlyAddedFiles c1 \<and>
        step2DownloadAndFill io store1 c1 = (Ok (), store2, c2) \<and>
        \<not> writer_close_fails io \<and> \<not> file_close_fails io \<and>
        ArStore_IngestNewArchive (ingest_env io) (ingest_io io) (bucket store2)
          (archiveStore store2) keyspace (map_option Zip (newArFile c2))
          = (None, arStore3, bucket3)"
    for store2 c2 arStore3 bucket3
  proof -
    from h have ten: "10 \<le> nNewlyAddedFiles c1"
      and s2: "step2DownloadAndFill io store1 c1 = (Ok (), store2, c2)"
      and cl: "\<not> writer_close_fails io" "\<not> file_close_fails io"
      and ing: "ArStore_IngestNewArchive (ingest_env io) (ingest_io io) (bucket store2)
          (archiveStore store2) keyspace (map_option Zip (newArFile c2))
          = (None, arStore3, bucket3)"
      by simp_all
    note f = step2_fields [OF s2]
    from f(3) obtain entries where en: "newArFile c2 = Some entries" by auto
    have k2: "job_Keyspace c2 = keyspace"
      using f(2) s1(6) by simp
    have s3: "step3IngestNewArFile io store2 c2
                = (None, store2\<lparr> archiveStore := arStore3, bucket := bucket3 \<rparr>)"
      using cl ing by (simp add: step3IngestNewArFile_def k2)
    have "work io store c =
          (Ok (), store2\<lparr> archiveStore := arStore3, bucket := bucket3 \<rparr>,
           c2\<lparr> newArFile := None \<rparr>)"
      using ten by (simp add: w s2 s3 cleanUp_def)
    moreover have "\<not> isSkipped c2"
      using f(1) c1s by simp
    moreover have "map_of (archives bucket3) (ArchiveKey keyspace) = Some (Zip entries)"
      using IngestNewArchive_success(1) [OF ing [unfolded en option.map]] .
    ultimately show ?thesis
      using en by simp
  qed
  have present: "work io store c = (Ok (), store1, c1\<lparr> isSkipped := True \<rparr>) \<and>
        newArFile c1 = None \<and> bucket store1 = bucket store"
    if h: "current_bundle (archiveStore store1) keyspace = Some ar \<and>
        (\<forall>item \<in> set planned.
           ArReader_Get ar (CacheEntityNameInArchive (item_ActionID item)) \<noteq> None)"
    for ar
  proof -
    from h have "nNewlyAddedFiles c1 = 0"
      using count addedCount_all_present [of planned ar] by simp
    then show ?thesis
      using skip by simp
  qed
  from count skip build present show ?thesis
    by blast
qed

definition example_objects :: "ListObject list" where
  "example_objects =
     \<lparr> obj_Key = ''b/ab/abcd'', obj_Size = 30, obj_IsDir = False \<rparr> #
     map (\<lambda>k. \<lparr> obj_Key = k, obj_Size = 40, obj_IsDir = False \<rparr>)
       [''b/a1/a1'', ''b/a2/a2'', ''b/a3/a3'', ''b/a4/a4'', ''b/a5/a5'', ''b/a6/a6'',
        ''b/a7/a7'', ''b/a8/a8'', ''b/a9/a9'']"

definition example_planned :: "compactItem list" where
  "example_planned =
     \<lparr> item_ActionID = [0xab, 0xcd], ObjectKey = ''b/ab/abcd'', ObjectSize = 30 \<rparr> #
     map (\<lambda>(a, k). \<lparr> item_ActionID = [a], ObjectKey = k, ObjectSize = 40 \<rparr>)
       [(0xa1, ''b/a1/a1''), (0xa2, ''b/a2/a2''), (0xa3, ''b/a3/a3''), (0xa4, ''b/a4/a4''),
        (0xa5, ''b/a5/a5''), (0xa6, ''b/a6/a6''), (0xa7, ''b/a7/a7''), (0xa8, ''b/a8/a8''),
        (0xa9, ''b/a9/a9'')]"

definition example_job_io :: compaction_io where
  "example_job_io =
     \<lparr> sync_env = example_env, sync_io = io_ok, listing = (example_objects, None),
       createTemp_fails = False, get_env = (\<lambda>actionID. example_env),
       add_fails = (\<lambda>name. False), writer_close_fails = False, file_close_fails = False,
       ingest_env = example_env, ingest_io = io_ok \<rparr>"

definition example_entry :: zip_file where
  "example_entry =
     \<lparr> zf_Name = ''abcd'', zf_Comment = Some example_meta, zf_Data = [0x66, 0x6f, 0x6f] \<rparr>"

definition example_backend_with_bundle :: BlobBackend where
  "example_backend_with_bundle =
     example_backend\<lparr> bucket :=
       (bucket example_backend)\<lparr> archives := [(''blobar/a.zip'', Zip [example_entry])] \<rparr> \<rparr>"

lemma example_listing:
  "list_loop (fst (listing example_job_io)) (snd (listing example_job_io)) [] 0
     = (Ok (), example_planned, 390)"
  by (simp add: example_job_io_def example_objects_def example_planned_def
      CompactionSmallBlobSize_def DecodeCacheEntityKey_def CacheEntityKey_def
      fromHexChar_def key_defs)

lemma example_sync_bundle:
  "current_bundle
     (snd (ArStore_SyncFromRemote (sync_env example_job_io) (sync_io example_job_io)
             (bucket example_backend_with_bundle) (archiveStore example_backend_with_bundle) ''a''))
     ''a''
   = Some \<lparr> z_closed = False,
            files = [(''abcd'', \<lparr> ActionID = [0xab, 0xcd], OutputID = [0x10], Size = 3,
                                  Time = 1700000000000000000, entry_reader = 0,
                                  entry_data = [0x66, 0x6f, 0x6f] \<rparr>)] \<rparr>"
  by (simp add: current_bundle_def ArStore_GetArchive_def ArLocalStore_Get_def
      ArStore_SyncFromRemote_def Bucket_NewArchiveReader_def ArchiveKey_def
      example_backend_with_bundle_def example_backend_def example_job_io_def
      no_remote_faults_def ArLocalStore_Put_def NewArLocalStore_def NewArReader_def io_ok_def
      ArchiveFilePath_def ArLocalStore_set_def Let_def example_entry_def example_meta_def
      example_env_def)

lemma example_sync_none:
  "snd (ArStore_SyncFromRemote (sync_env example_job_io) (sync_io example_job_io)
             (bucket example_backend) (archiveStore example_backend) ''a'')
   = archiveStore example_backend"
  by (simp add: ArStore_SyncFromRemote_def Bucket_NewArchiveReader_def ArchiveKey_def
      example_backend_def example_job_io_def no_remote_faults_def)

lemma example_added:
  "addedCount \<lparr> z_closed = False,
            files = [(''abcd'', \<lparr> ActionID = [0xab, 0xcd], OutputID = [0x10], Size = 3,
                                  Time = 1700000000000000000, entry_reader = 0,
                                  entry_data = [0x66, 0x6f, 0x6f] \<rparr>)] \<rparr> example_planned = 9"
  by (simp add: addedCount_def example_planned_def ArReader_Get_def
      CacheEntityNameInArchive_def key_defs)

definition example_disk_after_get :: LocalBackend where
  "example_disk_after_get =
     example_store\<lparr>fs := \<lparr> nodes =
         [([''w''], Dir), ([''w'', ''data''], Dir), ([''w'', ''data'', ''10''], Dir),
          ([''w'', ''data'', ''10'', ''10.output''], File [0x66, 0x6f, 0x6f]),
          ([''w'', ''data'', ''ab''], Dir),
          ([''w'', ''data'', ''ab'', ''abcd.action''], File (WriteTo_buf example_meta))],
         fails = no_faults \<rparr>\<rparr>"

lemma example_get_hit:
  "BlobBackend_Get example_env example_backend
     \<lparr> get_ActionID = [0xab, 0xcd], get_IsInCompaction = True \<rparr>
   = (Ok (hit_response [0x10] 3 1700000000000000000 ''w/data/10/10.output''),
      example_backend\<lparr> diskStore := example_disk_after_get \<rparr>)"
proof -
  let ?opts = "\<lparr> get_ActionID = [0xab, 0xcd], get_IsInCompaction = True \<rparr>"
  have lg: "LocalBackend_Get example_store ?opts = (Ok miss_response, example_store)"
    by (simp add: LocalBackend_Get_def LocalBackend_get_def actionPath_def example_store_def
        fs_defs key_defs lookup_def)
  have rm: "ReadEntryMeta (WriteTo_buf example_meta @ [0x66, 0x6f, 0x6f], None) =
              (Inr example_meta, ([0x66, 0x6f, 0x6f], None))"
    by (subst ReadEntryMeta_WriteTo_buf)
       (simp_all add: example_meta_def UnixNano_def zero_time_def time_Unix0_def)
  have put: "LocalBackend_Put example_env example_store
     \<lparr> Req = \<lparr> put_ActionID = [0xab, 0xcd], put_OutputID = [0x10], BodySize = 3 \<rparr>,
       Body = ([0x66, 0x6f, 0x6f], None), OverrideTime = Some 1700000000000000000,
       put_IsInCompaction = True \<rparr>
     = (Ok \<lparr> put_DiskPath = ''w/data/10/10.output'' \<rparr>, example_disk_after_get)"
    by (simp add: LocalBackend_Put_def LocalBackend_put_def put_output_def put_action_def
        actionPath_def outputPath_def example_store_def example_env_def example_meta_def
        fs_defs key_defs lookup_def store_node_def delete_node_def render_def
        example_disk_after_get_def)
  have ds: "diskStore example_backend = example_store"
    by (simp add: example_backend_def)
  have gb: "ArStore_GetBlob (archiveStore example_backend) ''a'' [0xab, 0xcd] = None"
    by (simp add: ArStore_GetBlob_def example_backend_def NewArLocalStore_def ArLocalStore_Get_def)
  have nr: "Bucket_NewReader (bucket example_backend) ''b/ab/abcd'' =
              Found (WriteTo_buf example_meta @ [0x66, 0x6f, 0x6f], None)"
    by (simp add: Bucket_NewReader_def example_backend_def no_remote_faults_def)
  have em: "ActionID example_meta = [0xab, 0xcd]" "OutputID example_meta = [0x10]"
    "Size example_meta = 3" "Time example_meta = 1700000000000000000"
    by (simp_all add: example_meta_def)
  have cl: "\<not> bb_closed example_backend"
    by (simp add: example_backend_def)
  have ks: "CacheEntityKeyspace [0xab, 0xcd] = Ok ''a''"
    by (simp add: CacheEntityKeyspace_def key_defs)
  have key: "CacheEntityKey [0xab, 0xcd] = Ok ''b/ab/abcd''"
    by (simp add: CacheEntityKey_def key_defs)
  have mm: "Miss miss_response"
    by (simp add: miss_response_def)
  have upd: "example_backend\<lparr> diskStore := example_store \<rparr> = example_backend"
    by (simp add: example_backend_def)
  show ?thesis
    by (simp add: BlobBackend_Get_def BlobBackend_get_def get_from_disk_def
        get_from_remote_def cl ks key gb ds lg mm upd nr rm em put)
qed

lemma example_get_miss:
  assumes "a \<in> {0xa1, 0xa2, 0xa3, 0xa4, 0xa5, 0xa6, 0xa7, 0xa8, 0xa9}"
  shows "BlobBackend_Get example_env (example_backend\<lparr> diskStore := example_disk_after_get \<rparr>)
     \<lparr> get_ActionID = [a :: byte], get_IsInCompaction = True \<rparr>
   = (Ok miss_response, example_backend\<lparr> diskStore := example_disk_after_get \<rparr>)"
proof -
  let ?opts = "\<lparr> get_ActionID = [a], get_IsInCompaction = True \<rparr>"
  have lg: "LocalBackend_Get example_disk_after_get ?opts
              = (Ok miss_response, example_disk_after_get)"
    using assms
    by (auto simp add: LocalBackend_Get_def LocalBackend_get_def actionPath_def
        example_store_def example_disk_after_get_def fs_defs key_defs lookup_def)
  have gb: "ArStore_GetBlob (archiveStore example_backend) k [a] = None" for k
    by (simp add: ArStore_GetBlob_def example_backend_def NewArLocalStore_def ArLocalStore_Get_def)
  have nr: "Bucket_NewReader (bucket example_backend) k = NotFound" if "length k = 7" for k
    using that by (auto simp add: Bucket_NewReader_def example_backend_def no_remote_faults_def)
  have cl: "\<not> bb_closed example_backend"
    by (simp add: example_backend_def)
  have mm: "Miss miss_response"
    by (simp add: miss_response_def)
  show ?thesis
    by (simp add: BlobBackend_Get_def BlobBackend_get_def get_from_disk_def
        get_from_remote_def CacheEntityKeyspace_def CacheEntityKey_def cl gb lg mm nr
        hex_byte_def hex_bytes_def)
qed

definition example_job_after_step1 :: CompactionJob where
  "example_job_after_step1 =
     \<lparr> job_Keyspace = ''a'', isSkipped = False, plannedList = example_planned,
       newArFile = None, nIncludedFiles = 0, nNewlyAddedFiles = 10, nNewlyAddedBytes = 390,
       nNewlyRemovedFiles = 0 \<rparr>"

lemma example_step1:
  "snd (step1FindBlobsToCompact (listing example_job_io) (archiveStore example_backend)
          (NewCompactionJob ''a''))
   = example_job_after_step1"
proof -
  have cb: "current_bundle (archiveStore example_backend) ''a'' = None"
    by (simp add: current_bundle_def ArStore_GetArchive_def ArLocalStore_Get_def
        example_backend_def NewArLocalStore_def)
  have len: "length example_planned = 10" and ne: "example_planned \<noteq> []"
    by (simp_all add: example_planned_def)
  show ?thesis
    by (simp add: step1FindBlobsToCompact_def example_listing NewCompactionJob_def cb len ne
        CompactionAtLeastAddFiles_def example_job_after_step1_def Let_def)
qed

lemma example_download:
  "download_all (get_env example_job_io) example_backend example_planned
   = (Inr [(\<lparr> item_ActionID = [0xab, 0xcd], ObjectKey = ''b/ab/abcd'', ObjectSize = 30 \<rparr>,
            hit_response [0x10] 3 1700000000000000000 ''w/data/10/10.output'')],
      example_backend\<lparr> diskStore := example_disk_after_get \<rparr>)"
proof -
  have e: "get_env example_job_io a = example_env" for a
    by (simp add: example_job_io_def)
  have m: "Miss miss_response" "\<not> Miss (hit_response o' s t p)" for o' s t p
    by (simp_all add: miss_response_def hit_response_def)
  show ?thesis
    by (simp add: example_planned_def e example_get_hit example_get_miss m)
qed

lemma example_step2:
  "step2DownloadAndFill example_job_io example_backend example_job_after_step1
   = (Ok (), example_backend\<lparr> diskStore := example_disk_after_get \<rparr>,
      example_job_after_step1\<lparr> newArFile := Some [example_entry], nIncludedFiles := 1 \<rparr>)"
proof -
  have rf: "os_ReadFile (fs example_disk_after_get) ''w/data/10/10.output''
              = Inr [0x66, 0x6f, 0x6f]"
    by (simp add: os_ReadFile_def example_disk_after_get_def render_def no_faults_def)
  have ct: "\<not> createTemp_fails example_job_io" "\<not> add_fails example_job_io n" for n
    by (simp_all add: example_job_io_def)
  have pl: "plannedList example_job_after_step1 = example_planned"
    by (simp add: example_job_after_step1_def)
  show ?thesis
    by (simp add: step2DownloadAndFill_def ct pl example_download Let_def hit_response_def
        rf SerializedSize_def CacheEntityNameInArchive_def key_defs example_entry_def
        ArWriter_Add_def
        example_meta_def example_job_after_step1_def)
qed

lemma example_ingest:
  "fst (ArStore_IngestNewArchive (ingest_env example_job_io) (ingest_io example_job_io)
          (bucket (example_backend\<lparr> diskStore := example_disk_after_get \<rparr>))
          (archiveStore (example_backend\<lparr> diskStore := example_disk_after_get \<rparr>)) ''a''
          (Some (Zip [example_entry])))
   = None"
  by (simp add: ArStore_IngestNewArchive_def ArLocalStore_Put_def NewArReader_def
      Bucket_UploadArchive_def example_backend_def example_job_io_def io_ok_def
      no_remote_faults_def NewArLocalStore_def ArchiveFilePath_def ArchiveKey_def
      ArLocalStore_set_def Let_def example_entry_def example_env_def)

theorem compaction_threshold_witness:
  "fst (work example_job_io example_backend_with_bundle (NewCompactionJob ''a'')) = Ok () \<and>
   isSkipped (snd (snd (work example_job_io example_backend_with_bundle (NewCompactionJob ''a'')))) \<and>
   bucket (fst (snd (work example_job_io example_backend_with_bundle (NewCompactionJob ''a''))))
     = bucket example_backend_with_bundle \<and>
   fst (work example_job_io example_backend (NewCompactionJob ''a'')) = Ok () \<and>
   \<not> isSkipped (snd (snd (work example_job_io example_backend (NewCompactionJob ''a'')))) \<and>
   map_of (archives (bucket (fst (snd (work example_job_io example_backend
                                          (NewCompactionJob ''a''))))))
     ''blobar/a.zip''
     = Some (Zip [example_entry])"
proof -
  note A = compaction_threshold [OF example_listing, of example_backend_with_bundle "''a''"]
  have few: "nNewlyAddedFiles
      (snd (step1FindBlobsToCompact (listing example_job_io)
              (archiveStore
                (example_backend_with_bundle\<lparr> archiveStore :=
                   snd (ArStore_SyncFromRemote (sync_env example_job_io) (sync_io example_job_io)
                          (bucket example_backend_with_bundle)
                          (archiveStore example_backend_with_bundle) ''a'') \<rparr>))
              (NewCompactionJob ''a''))) = 9"
    using A [THEN conjunct1] by (simp add: example_sync_bundle example_added)
  have skip: "work example_job_io example_backend_with_bundle (NewCompactionJob ''a'') =
      (Ok (),
       example_backend_with_bundle\<lparr> archiveStore :=
          snd (ArStore_SyncFromRemote (sync_env example_job_io) (sync_io example_job_io)
                 (bucket example_backend_with_bundle)
                 (archiveStore example_backend_with_bundle) ''a'') \<rparr>,
       (snd (step1FindBlobsToCompact (listing example_job_io)
              (archiveStore
                (example_backend_with_bundle\<lparr> archiveStore :=
                   snd (ArStore_SyncFromRemote (sync_env example_job_io) (sync_io example_job_io)
                          (bucket example_backend_with_bundle)
                          (archiveStore example_backend_with_bundle) ''a'') \<rparr>))
              (NewCompactionJob ''a'')))\<lparr> isSkipped := True \<rparr>)"
    using A [THEN conjunct2, THEN conjunct1] few by simp
  note B = compaction_threshold [OF example_listing, of example_backend "''a''"]
  have st1: "example_backend\<lparr> archiveStore :=
          snd (ArStore_SyncFromRemote (sync_env example_job_io) (sync_io example_job_io)
                 (bucket example_backend) (archiveStore example_backend) ''a'') \<rparr>
        = example_backend"
    by (simp add: example_sync_none)
  obtain arStore3 bucket3 where
    ing: "ArStore_IngestNewArchive (ingest_env example_job_io) (ingest_io example_job_io)
          (bucket (example_backend\<lparr> diskStore := example_disk_after_get \<rparr>))
          (archiveStore (example_backend\<lparr> diskStore := example_disk_after_get \<rparr>)) ''a''
          (Some (Zip [example_entry])) = (None, arStore3, bucket3)"
    using example_ingest by (metis prod.collapse)
  have cl: "\<not> writer_close_fails example_job_io" "\<not> file_close_fails example_job_io"
    by (simp_all add: example_job_io_def)
  have ten: "10 \<le> nNewlyAddedFiles example_job_after_step1"
    by (simp add: example_job_after_step1_def)
  have na: "newArFile (example_job_after_step1\<lparr> newArFile := Some [example_entry],
                                                  nIncludedFiles := 1 \<rparr>)
              = Some [example_entry]"
    by simp
  note B3 = B [unfolded st1 example_step1, THEN conjunct2, THEN conjunct2, THEN conjunct1,
               rule_format,
               of "example_backend\<lparr> diskStore := example_disk_after_get \<rparr>"
                  "example_job_after_step1\<lparr> newArFile := Some [example_entry],
                                             nIncludedFiles := 1 \<rparr>"
                  arStore3 bucket3]
  have built: "work example_job_io example_backend (NewCompactionJob ''a'') =
          (Ok (), example_backend\<lparr> diskStore := example_disk_after_get,
                                     archiveStore := arStore3, bucket := bucket3 \<rparr>,
           example_job_after_step1\<lparr> newArFile := Some [example_entry],
                                    nIncludedFiles := 1, newArFile := None \<rparr>) \<and>
        map_of (archives bucket3) (ArchiveKey ''a'') = Some (Zip [example_entry])"
    using B3 ten example_step2 cl ing
    unfolding na by simp
  show ?thesis
    unfolding skip
    using built
    by (simp add: example_job_after_step1_def ArchiveKey_def)
qed

theorem listing_key_with_empty_remainder_panics_witness:
  "DecodeCacheEntityKey ''b/a0/'' = Panic IndexOutOfRange \<and>
   fst (work (example_job_io\<lparr> listing :=
                (example_objects @ [\<lparr> obj_Key = ''b/a0/'', obj_Size = 0, obj_IsDir = False \<rparr>],
                 None) \<rparr>)
          example_backend (NewCompactionJob ''a''))
     = Panic IndexOutOfRange"
  using listing_key_with_empty_remainder_panics
    [of "\<lparr> obj_Key = ''b/a0/'', obj_Size = 0, obj_IsDir = False \<rparr>"
        "example_objects @ [\<lparr> obj_Key = ''b/a0/'', obj_Size = 0, obj_IsDir = False \<rparr>]"
        None "archiveStore example_backend" "NewCompactionJob ''a''" example_job_io
        example_backend]
  by (simp add: has_empty_hex_remainder_def CompactionSmallBlobSize_def)

end
